theory Spec2Isabelle
  imports Main "HOL-Library.Word"
begin

section \<open>Memory\<close>

text \<open>
  The string engine of \<^verbatim>\<open>str.hpp\<close> works on raw character buffers. A buffer is a block
  of cells; a cell is either an initialised byte or indeterminate (fresh memory of the
  allocator, the untouched part of a local buffer). The blocks an instance can see are the
  process-wide dummy string \<^verbatim>\<open>s_dummy\<close>, the local buffer that follows the header of a
  \<^verbatim>\<open>str_sized<N>\<close>, heap blocks handed out by \<^verbatim>\<open>STR_MEM_ALLOC\<close>, and storage
  owned by the caller. A pointer is a block with an offset. Reading an indeterminate cell,
  touching a cell outside its block or freeing what the allocator did not hand out is
  undefined behaviour in C++; the model makes it the error \<open>UndefinedBehaviour\<close>. A failing
  \<^verbatim>\<open>STR_ASSERT\<close> is the error \<open>AssertionFailed\<close>.

  Storage of the caller reaches the engine as \<^verbatim>\<open>const char *\<close>. Where it is a string
  literal or another constant object, a store into it is undefined behaviour as well: the
  memory knows which blocks of the caller are read-only.
\<close>

datatype block = Dummy | Local | Heap nat | Ext nat

type_synonym ptr = "block \<times> int"

type_synonym cell = "char option"

datatype error = AssertionFailed | UndefinedBehaviour

text \<open>
  Besides the blocks, the memory counts the calls of \<^verbatim>\<open>STR_MEM_ALLOC\<close> and keeps the
  addresses of all bytes stored so far, in order.
\<close>

record memory =
  blocks :: "block \<Rightarrow> cell list option"
  allocs :: nat
  written :: "ptr list"
  read_only :: "nat set"

definition is_read_only :: "memory \<Rightarrow> block \<Rightarrow> bool" where
  "is_read_only m b = (case b of Ext k \<Rightarrow> k \<in> read_only m | _ \<Rightarrow> False)"

definition NUL :: char where
  "NUL = CHR 0x00"

definition and_then :: "error + 'a \<Rightarrow> ('a \<Rightarrow> error + 'b) \<Rightarrow> error + 'b" where
  "and_then r f = (case r of Inl e \<Rightarrow> Inl e | Inr x \<Rightarrow> f x)"

definition ptr_add :: "ptr \<Rightarrow> int \<Rightarrow> ptr" where
  "ptr_add p n = (fst p, snd p + n)"

definition load :: "memory \<Rightarrow> ptr \<Rightarrow> error + char" where
  "load m p =
     (case blocks m (fst p) of
        None \<Rightarrow> Inl UndefinedBehaviour
      | Some cs \<Rightarrow>
          if 0 \<le> snd p \<and> snd p < int (length cs)
          then (case cs ! nat (snd p) of None \<Rightarrow> Inl UndefinedBehaviour | Some c \<Rightarrow> Inr c)
          else Inl UndefinedBehaviour)"

definition load_cells :: "memory \<Rightarrow> ptr \<Rightarrow> nat \<Rightarrow> error + cell list" where
  "load_cells m p n =
     (if n = 0 then Inr []
      else case blocks m (fst p) of
        None \<Rightarrow> Inl UndefinedBehaviour
      | Some cs \<Rightarrow>
          if 0 \<le> snd p \<and> snd p + int n \<le> int (length cs)
          then Inr (take n (drop (nat (snd p)) cs))
          else Inl UndefinedBehaviour)"

definition store_cells :: "memory \<Rightarrow> ptr \<Rightarrow> cell list \<Rightarrow> error + memory" where
  "store_cells m p vs =
     (if vs = [] then Inr m
      else case blocks m (fst p) of
        None \<Rightarrow> Inl UndefinedBehaviour
      | Some cs \<Rightarrow>
          if is_read_only m (fst p) then Inl UndefinedBehaviour
          else if 0 \<le> snd p \<and> snd p + int (length vs) \<le> int (length cs)
          then Inr (m\<lparr>blocks := (blocks m)(fst p \<mapsto>
                         take (nat (snd p)) cs @ vs @ drop (nat (snd p) + length vs) cs),
                      written := written m @ map (\<lambda>i. (fst p, snd p + int i)) [0..<length vs]\<rparr>)
          else Inl UndefinedBehaviour)"

definition store :: "memory \<Rightarrow> ptr \<Rightarrow> char \<Rightarrow> error + memory" where
  "store m p c = store_cells m p [Some c]"

text \<open>The characters of the C string at a cell list: all bytes before the first terminator.\<close>

fun until_nul :: "cell list \<Rightarrow> string option" where
  "until_nul [] = None"
| "until_nul (None # cs) = None"
| "until_nul (Some c # cs) =
     (if c = NUL then Some [] else map_option ((#) c) (until_nul cs))"

definition c_string :: "memory \<Rightarrow> ptr \<Rightarrow> error + string" where
  "c_string m p =
     (case blocks m (fst p) of
        None \<Rightarrow> Inl UndefinedBehaviour
      | Some cs \<Rightarrow>
          if 0 \<le> snd p \<and> snd p \<le> int (length cs)
          then (case until_nul (drop (nat (snd p)) cs) of
                  None \<Rightarrow> Inl UndefinedBehaviour
                | Some s \<Rightarrow> Inr s)
          else Inl UndefinedBehaviour)"

text \<open>
  \<^verbatim>\<open>std::memcpy\<close> (also standing for \<^verbatim>\<open>std::memmove\<close>: the source is read before
  the destination is written), \<^verbatim>\<open>std::memset\<close> and \<^verbatim>\<open>std::strcpy\<close>. A negative count
  converts to a huge \<^verbatim>\<open>size_t\<close> and runs out of every block.
\<close>

definition memcpy :: "memory \<Rightarrow> ptr \<Rightarrow> ptr \<Rightarrow> int \<Rightarrow> error + memory" where
  "memcpy m dst src n =
     (if n < 0 then Inl UndefinedBehaviour
      else and_then (load_cells m src (nat n)) (store_cells m dst))"

definition memset :: "memory \<Rightarrow> ptr \<Rightarrow> char \<Rightarrow> int \<Rightarrow> error + memory" where
  "memset m dst c n =
     (if n < 0 then Inl UndefinedBehaviour
      else store_cells m dst (replicate (nat n) (Some c)))"

definition strcpy :: "memory \<Rightarrow> ptr \<Rightarrow> ptr \<Rightarrow> error + memory" where
  "strcpy m dst src =
     and_then (c_string m src) (\<lambda>s. store_cells m dst (map Some s @ [Some NUL]))"

text \<open>
  \<^verbatim>\<open>STR_MEM_ALLOC(count)\<close> is \<^verbatim>\<open>std::malloc\<close>: a fresh block of indeterminate cells.
  A negative \<^verbatim>\<open>int\<close> becomes a huge \<^verbatim>\<open>size_t\<close>, for which the allocator returns
  \<^verbatim>\<open>nullptr\<close> (the result \<open>None\<close>). \<^verbatim>\<open>STR_MEM_FREE\<close> takes back a live heap block.
\<close>

definition mem_alloc :: "memory \<Rightarrow> int \<Rightarrow> (ptr \<times> memory) option" where
  "mem_alloc m n =
     (if n < 0 then None
      else Some ((Heap (allocs m), 0),
                 m\<lparr>blocks := (blocks m)(Heap (allocs m) \<mapsto> replicate (nat n) None),
                   allocs := Suc (allocs m)\<rparr>))"

definition mem_free :: "memory \<Rightarrow> ptr \<Rightarrow> error + memory" where
  "mem_free m p =
     (case fst p of
        Heap k \<Rightarrow>
          if snd p = 0 \<and> blocks m (Heap k) \<noteq> None
          then Inr (m\<lparr>blocks := (blocks m)(Heap k := None)\<rparr>)
          else Inl UndefinedBehaviour
      | _ \<Rightarrow> Inl UndefinedBehaviour)"

text \<open>
  \<^verbatim>\<open>narrow<int>(u)\<close>: the cast to \<^verbatim>\<open>int\<close>, with the assertion that the value
  survived it.
\<close>

definition narrow_int :: "int \<Rightarrow> error + int" where
  "narrow_int n = (if - (2 ^ 31) \<le> n \<and> n < 2 ^ 31 then Inr n else Inl AssertionFailed)"

text \<open>\<^verbatim>\<open>str::length(const char *)\<close>: \<^verbatim>\<open>narrow<int>(std::strlen(str))\<close>.\<close>

definition cstr_length :: "memory \<Rightarrow> ptr \<Rightarrow> error + int" where
  "cstr_length m p = and_then (c_string m p) (\<lambda>s. narrow_int (int (length s)))"

text \<open>The cells from a pointer to the end of its block, for loops that only read.\<close>

definition cells_from :: "memory \<Rightarrow> ptr \<Rightarrow> error + cell list" where
  "cells_from m p =
     (case blocks m (fst p) of
        None \<Rightarrow> Inl UndefinedBehaviour
      | Some cs \<Rightarrow>
          if 0 \<le> snd p \<and> snd p \<le> int (length cs)
          then Inr (drop (nat (snd p)) cs)
          else Inl UndefinedBehaviour)"

text \<open>
  \<^verbatim>\<open>std::strncmp\<close> on the cells of its two arguments: the difference of the first pair
  of bytes that differ, 0 when \<open>n\<close> bytes or both strings are exhausted.
\<close>

fun strncmp :: "cell list \<Rightarrow> cell list \<Rightarrow> nat \<Rightarrow> error + int" where
  "strncmp a b 0 = Inr 0"
| "strncmp (Some x # a) (Some y # b) (Suc n) =
     (if x \<noteq> y then Inr (int (of_char x) - int (of_char y))
      else if x = NUL then Inr 0
      else strncmp a b n)"
| "strncmp a b (Suc n) = Inl UndefinedBehaviour"

text \<open>\<^verbatim>\<open>std::isspace\<close> in the C locale: space, and \<^verbatim>\<open>\t \n \v \f \r\<close>.\<close>

definition isspace :: "char \<Rightarrow> bool" where
  "isspace c = ((of_char c :: nat) = 32 \<or> (9 \<le> (of_char c :: nat) \<and> (of_char c :: nat) \<le> 13))"

text \<open>
  \<^verbatim>\<open>std::vsnprintf(buf, n, fmt, args)\<close>. The format and its arguments are represented by
  what becomes of them: \<open>Expands text\<close> when they expand to a text, \<open>Fails bytes\<close> when the
  expansion fails (an encoding error, reported by a negative result). With \<open>n = 0\<close> nothing
  is written and \<open>buf\<close> may be null. Otherwise an expansion that succeeds writes at most
  \<open>n - 1\<close> bytes of the text and a terminator, and the result is the length of the whole
  text; an expansion that fails leaves what the library had written by then, which the C
  standard does not specify: the bytes that \<open>Fails\<close> carries, at most \<open>n\<close> of them. A
  negative \<open>n\<close> converts to a huge \<^verbatim>\<open>size_t\<close>, which bounds nothing.
\<close>

datatype expansion = Expands string | Fails string

definition vsnprintf :: "memory \<Rightarrow> ptr option \<Rightarrow> int \<Rightarrow> expansion \<Rightarrow> error + int \<times> memory" where
  "vsnprintf m buf n fmt =
     (case fmt of
        Fails bytes \<Rightarrow>
          if n = 0 then Inr (- 1, m)
          else (case buf of
                  None \<Rightarrow> Inl UndefinedBehaviour
                | Some p \<Rightarrow>
                    and_then
                      (store_cells m p (map Some (if n < 0 then bytes else take (nat n) bytes)))
                      (\<lambda>m'. Inr (- 1, m')))
      | Expands text \<Rightarrow>
          if n = 0 then Inr (int (length text), m)
          else (case buf of
                  None \<Rightarrow> Inl UndefinedBehaviour
                | Some p \<Rightarrow>
                    and_then
                      (store_cells m p
                         (map Some (if n < 0 then text else take (nat (n - 1)) text) @ [Some NUL]))
                      (\<lambda>m'. Inr (int (length text), m'))))"

section \<open>The header\<close>

text \<open>
  The fields of \<^verbatim>\<open>class str\<close>. \<^verbatim>\<open>m_capacity\<close> is a 21-bit and
  \<^verbatim>\<open>m_local_buffer_size\<close> a 10-bit bit-field of type \<^verbatim>\<open>std::int32_t\<close>: both are
  read as two's complement, and a value stored into them keeps its low bits only.
  \<^verbatim>\<open>m_length\<close> is an \<^verbatim>\<open>int32_t\<close>; its arithmetic is modelled on \<open>int\<close> (signed
  overflow is undefined in C++ and not modelled).
\<close>

record str =
  m_data :: ptr
  m_length :: int
  m_capacity :: "21 word"
  m_local_buffer_size :: "10 word"
  m_owns_buffer :: bool

type_synonym state = "str \<times> memory"

definition length_str :: "str \<Rightarrow> int" where
  "length_str s = m_length s"

definition capacity :: "str \<Rightarrow> int" where
  "capacity s = sint (m_capacity s)"

definition local_buffer_size :: "str \<Rightarrow> int" where
  "local_buffer_size s = sint (m_local_buffer_size s)"

definition owns_buffer :: "str \<Rightarrow> bool" where
  "owns_buffer s = m_owns_buffer s"

definition get_local_buffer :: ptr where
  "get_local_buffer = (Local, 0)"

definition get_empty_dummy_string :: ptr where
  "get_empty_dummy_string = (Dummy, 0)"

definition using_local_buffer :: "str \<Rightarrow> bool" where
  "using_local_buffer s = (m_data s = get_local_buffer \<and> local_buffer_size s \<noteq> 0)"

definition c_str :: "str \<Rightarrow> ptr" where
  "c_str s = m_data s"

text \<open>\<^verbatim>\<open>str::str()\<close> and \<^verbatim>\<open>str::str(int local_buf_size)\<close>.\<close>

definition str_default :: str where
  "str_default = \<lparr>m_data = get_empty_dummy_string, m_length = 0, m_capacity = 0,
                   m_local_buffer_size = 0, m_owns_buffer = False\<rparr>"

definition str_sized :: "int \<Rightarrow> memory \<Rightarrow> error + state" where
  "str_sized local_buf_size m =
     (let s = \<lparr>m_data = get_local_buffer, m_length = 0,
                m_capacity = word_of_int local_buf_size,
                m_local_buffer_size = word_of_int local_buf_size,
                m_owns_buffer = True\<rparr>
      in if \<not> local_buf_size < 1024 then Inl AssertionFailed
         else and_then (store m (m_data s) NUL) (\<lambda>m'. Inr (s, m')))"

text \<open>\<^verbatim>\<open>str::clear_no_free\<close>, \<^verbatim>\<open>str::pop_back\<close>, \<^verbatim>\<open>str::truncate\<close>.\<close>

definition clear_no_free :: "state \<Rightarrow> error + state" where
  "clear_no_free st =
     (case st of (s, m) \<Rightarrow>
        if m_data s \<noteq> get_empty_dummy_string
        then and_then (store m (m_data s) NUL) (\<lambda>m'. Inr (s\<lparr>m_length := 0\<rparr>, m'))
        else Inr (s, m))"

definition pop_back :: "state \<Rightarrow> error + state" where
  "pop_back st =
     (case st of (s, m) \<Rightarrow>
        if m_length s > 0
        then and_then (store m (ptr_add (m_data s) (m_length s - 1)) NUL)
               (\<lambda>m'. Inr (s\<lparr>m_length := m_length s - 1\<rparr>, m'))
        else Inr (s, m))"


section \<open>Storage transitions\<close>

text \<open>
  The release of the old buffer that \<^verbatim>\<open>set_ref\<close>, \<^verbatim>\<open>clear\<close>, \<^verbatim>\<open>reserve\<close> and
  \<^verbatim>\<open>reserve_discard\<close> all spell out: if the buffer is owned and not the local one,
  assert that it is not the dummy string and free it.
\<close>

definition release_owned :: "str \<Rightarrow> memory \<Rightarrow> error + memory" where
  "release_owned s m =
     (if m_owns_buffer s \<and> \<not> using_local_buffer s
      then (if \<not> m_data s \<noteq> get_empty_dummy_string then Inl AssertionFailed
            else mem_free m (m_data s))
      else Inr m)"

text \<open>
  \<^verbatim>\<open>str::reserve(new_capacity, dynamic_alloc_extra)\<close>, with the \<^verbatim>\<open>std::strcpy\<close> of the
  branch for compilers other than MSVC.
\<close>

definition reserve :: "state \<Rightarrow> int \<Rightarrow> int \<Rightarrow> error + state" where
  "reserve st new_capacity dynamic_alloc_extra =
     (case st of (s, m) \<Rightarrow>
        if \<not> dynamic_alloc_extra \<ge> 0 then Inl AssertionFailed
        else if new_capacity \<le> capacity s then Inr (s, m)
        else
          and_then
            (if new_capacity < local_buffer_size s
             then Inr (get_local_buffer, local_buffer_size s, m)
             else (case mem_alloc m (new_capacity + dynamic_alloc_extra) of
                     None \<Rightarrow> Inl AssertionFailed
                   | Some (p, m1) \<Rightarrow> Inr (p, new_capacity + dynamic_alloc_extra, m1)))
            (\<lambda>(new_data, new_cap, m1).
               and_then (strcpy m1 new_data (m_data s)) (\<lambda>m2.
               and_then (release_owned s m2) (\<lambda>m3.
               Inr (s\<lparr>m_data := new_data, m_capacity := word_of_int new_cap,
                       m_owns_buffer := True\<rparr>, m3)))))"

text \<open>\<^verbatim>\<open>str::reserve_discard(new_capacity, dynamic_alloc_extra)\<close>.\<close>

definition reserve_discard :: "state \<Rightarrow> int \<Rightarrow> int \<Rightarrow> error + state" where
  "reserve_discard st new_capacity dynamic_alloc_extra =
     (case st of (s, m) \<Rightarrow>
        if \<not> dynamic_alloc_extra \<ge> 0 then Inl AssertionFailed
        else if new_capacity \<le> capacity s then Inr (s, m)
        else
          and_then (release_owned s m) (\<lambda>m1.
          and_then
            (if new_capacity < local_buffer_size s
             then Inr (s\<lparr>m_data := get_local_buffer,
                          m_capacity := word_of_int (local_buffer_size s)\<rparr>, m1)
             else (case mem_alloc m1 (new_capacity + dynamic_alloc_extra) of
                     None \<Rightarrow> Inl AssertionFailed
                   | Some (p, m2) \<Rightarrow>
                       Inr (s\<lparr>m_data := p,
                               m_capacity := word_of_int (new_capacity + dynamic_alloc_extra)\<rparr>, m2)))
            (\<lambda>(s1, m2).
               and_then (store m2 (m_data s1) NUL) (\<lambda>m3.
               Inr (s1\<lparr>m_length := 0, m_owns_buffer := True\<rparr>, m3)))))"

text \<open>\<^verbatim>\<open>str::clear\<close>.\<close>

definition clear :: "state \<Rightarrow> error + state" where
  "clear st =
     (case st of (s, m) \<Rightarrow>
        and_then (release_owned s m) (\<lambda>m1.
        if local_buffer_size s > 0
        then and_then (store m1 get_local_buffer NUL) (\<lambda>m2.
               Inr (s\<lparr>m_data := get_local_buffer, m_length := 0,
                       m_capacity := word_of_int (local_buffer_size s),
                       m_owns_buffer := True\<rparr>, m2))
        else Inr (s\<lparr>m_data := get_empty_dummy_string, m_length := 0,
                     m_capacity := 0, m_owns_buffer := False\<rparr>, m1)))"

section \<open>Mutation primitives\<close>

text \<open>
  \<^verbatim>\<open>str::set(const char * src, int first, int count)\<close> and
  \<^verbatim>\<open>str::set(const char * src)\<close>. The source is a pointer into the memory.
\<close>

definition set_str :: "state \<Rightarrow> ptr \<Rightarrow> int \<Rightarrow> int \<Rightarrow> error + state" where
  "set_str st src first count =
     (case st of (s, m) \<Rightarrow>
        if \<not> first \<ge> 0 then Inl AssertionFailed
        else if \<not> count \<ge> 0 then Inl AssertionFailed
        else
          and_then (load m (ptr_add src first)) (\<lambda>c.
          if c = NUL \<or> count = 0 then clear_no_free (s, m)
          else
            and_then (if capacity s < count + 1 then reserve_discard (s, m) (count + 1) 16
                      else Inr (s, m))
              (\<lambda>(s1, m1).
                 and_then (memcpy m1 (m_data s1) (ptr_add src first) count) (\<lambda>m2.
                 and_then (store m2 (ptr_add (m_data s1) count) NUL) (\<lambda>m3.
                 Inr (s1\<lparr>m_length := count, m_owns_buffer := True\<rparr>, m3))))))"

definition set_cstr :: "state \<Rightarrow> ptr \<Rightarrow> error + state" where
  "set_cstr st src = and_then (cstr_length (snd st) src) (\<lambda>n. set_str st src 0 n)"

text \<open>\<^verbatim>\<open>str::set_ref(const char * src, int first)\<close> and \<^verbatim>\<open>str::set_ref(const char * src)\<close>.\<close>

definition set_ref_at :: "state \<Rightarrow> ptr \<Rightarrow> int \<Rightarrow> error + state" where
  "set_ref_at st src first =
     (case st of (s, m) \<Rightarrow>
        and_then (load m (ptr_add src first)) (\<lambda>c.
        if c = NUL then clear_no_free (s, m)
        else
          and_then (release_owned s m) (\<lambda>m1.
          and_then (cstr_length m1 (ptr_add src first)) (\<lambda>n.
          Inr (s\<lparr>m_data := ptr_add src first, m_length := n, m_capacity := 0,
                  m_owns_buffer := False\<rparr>, m1)))))"

definition set_ref :: "state \<Rightarrow> ptr \<Rightarrow> error + state" where
  "set_ref st src = set_ref_at st src 0"

text \<open>
  \<^verbatim>\<open>str::append(const char * src, int first, int count)\<close>, \<^verbatim>\<open>str::append(const char * src)\<close>
  and \<^verbatim>\<open>str::push_back\<close>. The default \<^verbatim>\<open>dynamic_alloc_extra\<close> of \<^verbatim>\<open>reserve\<close> is 16.
\<close>

definition append_str :: "state \<Rightarrow> ptr \<Rightarrow> int \<Rightarrow> int \<Rightarrow> error + state" where
  "append_str st src first count =
     (case st of (s, m) \<Rightarrow>
        if \<not> first \<ge> 0 then Inl AssertionFailed
        else if \<not> count \<ge> 0 then Inl AssertionFailed
        else
          and_then (load m (ptr_add src first)) (\<lambda>c.
          if c = NUL \<or> count = 0 then Inr (s, m)
          else
            and_then (if capacity s < m_length s + count + 1
                      then reserve (s, m) (m_length s + count + 1) 16
                      else Inr (s, m))
              (\<lambda>(s1, m1).
                 and_then (memcpy m1 (ptr_add (m_data s1) (m_length s1)) (ptr_add src first) count)
                   (\<lambda>m2.
                 and_then (store m2 (ptr_add (m_data s1) (m_length s1 + count)) NUL) (\<lambda>m3.
                 Inr (s1\<lparr>m_length := m_length s1 + count\<rparr>, m3))))))"

definition append_cstr :: "state \<Rightarrow> ptr \<Rightarrow> error + state" where
  "append_cstr st src = and_then (cstr_length (snd st) src) (\<lambda>n. append_str st src 0 n)"

definition push_back :: "state \<Rightarrow> char \<Rightarrow> error + state" where
  "push_back st c =
     and_then (reserve st (m_length (fst st) + 2) 16) (\<lambda>(s1, m1).
     and_then (store m1 (ptr_add (m_data s1) (m_length s1)) c) (\<lambda>m2.
     and_then (store m2 (ptr_add (m_data s1) (m_length s1 + 1)) NUL) (\<lambda>m3.
     Inr (s1\<lparr>m_length := m_length s1 + 1\<rparr>, m3))))"

text \<open>\<^verbatim>\<open>str::resize\<close> and \<^verbatim>\<open>str::resize_discard\<close>.\<close>

definition resize :: "state \<Rightarrow> int \<Rightarrow> char \<Rightarrow> int \<Rightarrow> error + state" where
  "resize st new_len fill_char dynamic_alloc_extra =
     (if \<not> new_len \<ge> 0 then Inl AssertionFailed
      else if \<not> dynamic_alloc_extra \<ge> 0 then Inl AssertionFailed
      else if new_len = 0 then clear_no_free st
      else
        and_then (reserve st (m_length (fst st) + new_len + 1) dynamic_alloc_extra) (\<lambda>(s1, m1).
        and_then (memset m1 (ptr_add (m_data s1) (m_length s1)) fill_char new_len) (\<lambda>m2.
        and_then (store m2 (ptr_add (m_data s1) (m_length s1 + new_len)) NUL) (\<lambda>m3.
        Inr (s1\<lparr>m_length := m_length s1 + new_len\<rparr>, m3)))))"

definition resize_discard :: "state \<Rightarrow> int \<Rightarrow> char \<Rightarrow> int \<Rightarrow> error + state" where
  "resize_discard st new_len fill_char dynamic_alloc_extra =
     (if \<not> new_len \<ge> 0 then Inl AssertionFailed
      else if \<not> dynamic_alloc_extra \<ge> 0 then Inl AssertionFailed
      else if new_len = 0 then clear_no_free st
      else
        and_then (reserve_discard st (new_len + 1) dynamic_alloc_extra) (\<lambda>(s1, m1).
        and_then (memset m1 (m_data s1) fill_char new_len) (\<lambda>m2.
        and_then (store m2 (ptr_add (m_data s1) new_len) NUL) (\<lambda>m3.
        Inr (s1\<lparr>m_length := new_len\<rparr>, m3)))))"

section \<open>Formatted writes\<close>

text \<open>
  \<^verbatim>\<open>str::setfv\<close> and \<^verbatim>\<open>str::appendfv\<close>, in the branch for compilers other than MSVC,
  and \<^verbatim>\<open>str::setfv_no_grow\<close>. \<^verbatim>\<open>setf\<close>, \<^verbatim>\<open>appendf\<close> and \<^verbatim>\<open>setf_no_grow\<close> only
  collect their variadic arguments and call these. The result carries the returned
  \<^verbatim>\<open>bool\<close>.
\<close>

definition setfv :: "state \<Rightarrow> expansion \<Rightarrow> error + bool \<times> state" where
  "setfv st fmt =
     (case st of (s, m) \<Rightarrow>
        and_then (vsnprintf m (if m_owns_buffer s then Some (m_data s) else None)
                    (if m_owns_buffer s then capacity s else 0) fmt) (\<lambda>(result, m1).
        if \<not> result \<ge> 0 then Inl AssertionFailed
        else
          and_then
            (if capacity s < result + 1
             then and_then (reserve_discard (s, m1) (result + 1) 16) (\<lambda>(s2, m2).
                  and_then (vsnprintf m2 (Some (m_data s2)) (result + 1) fmt) (\<lambda>(result2, m3).
                  Inr (result2, s2, m3)))
             else Inr (result, s, m1))
            (\<lambda>(result3, s3, m3).
               if result3 \<ge> 0
               then Inr (True, s3\<lparr>m_length := result3, m_owns_buffer := True\<rparr>, m3)
               else and_then (clear_no_free (s3, m3)) (\<lambda>st'. Inr (False, st')))))"

definition setfv_no_grow :: "state \<Rightarrow> expansion \<Rightarrow> error + bool \<times> state" where
  "setfv_no_grow st fmt =
     (case st of (s, m) \<Rightarrow>
        and_then (vsnprintf m (Some (m_data s)) (capacity s) fmt) (\<lambda>(result, m1).
        if result < 0 then and_then (clear_no_free (s, m1)) (\<lambda>st'. Inr (False, st'))
        else
          (let result' = (if result \<ge> capacity s then capacity s - 1 else result)
           in and_then (store m1 (ptr_add (m_data s) result') NUL) (\<lambda>m2.
              Inr (True, s\<lparr>m_length := result', m_owns_buffer := True\<rparr>, m2)))))"

definition appendfv :: "state \<Rightarrow> expansion \<Rightarrow> error + bool \<times> state" where
  "appendfv st fmt =
     (case st of (s, m) \<Rightarrow>
        (let cur_len = m_length s in
         and_then (vsnprintf m (if m_owns_buffer s then Some (ptr_add (m_data s) cur_len) else None)
                     (if m_owns_buffer s then capacity s - cur_len else 0) fmt) (\<lambda>(add_len, m1).
         if \<not> add_len \<ge> 0 then Inl AssertionFailed
         else
           and_then
             (if capacity s < cur_len + add_len + 1
              then and_then (reserve (s, m1) (cur_len + add_len + 1) 16) (\<lambda>(s2, m2).
                   and_then (vsnprintf m2 (Some (ptr_add (m_data s2) cur_len)) (add_len + 1) fmt)
                     (\<lambda>(add_len2, m3).
                   Inr (add_len2, s2, m3)))
              else Inr (add_len, s, m1))
             (\<lambda>(add_len3, s3, m3).
                Inr (add_len3 \<ge> 0, s3\<lparr>m_owns_buffer := True\<rparr>, m3)))))"

section \<open>Trimming\<close>

text \<open>
  \<^verbatim>\<open>str::skip_leading_whitespace\<close> walks forward while it reads white space; the result
  here is the distance walked. \<^verbatim>\<open>str::trim_right\<close> walks backwards from the last
  character and stores a terminator over each white space it steps over.
\<close>

fun skip_leading_whitespace :: "cell list \<Rightarrow> error + int" where
  "skip_leading_whitespace [] = Inl UndefinedBehaviour"
| "skip_leading_whitespace (None # cs) = Inl UndefinedBehaviour"
| "skip_leading_whitespace (Some c # cs) =
     (if c = NUL then Inr 0
      else if \<not> isspace c then Inr 0
      else (case skip_leading_whitespace cs of Inl e \<Rightarrow> Inl e | Inr d \<Rightarrow> Inr (d + 1)))"

function trim_right_loop :: "memory \<Rightarrow> ptr \<Rightarrow> int \<Rightarrow> error + int \<times> memory" where
  "trim_right_loop m p new_len =
     (if new_len = 0 then Inr (new_len, m)
      else (case load m p of
              Inl e \<Rightarrow> Inl e
            | Inr c \<Rightarrow>
                if isspace c
                then (case store m p NUL of
                        Inl e \<Rightarrow> Inl e
                      | Inr m' \<Rightarrow> trim_right_loop m' (ptr_add p (- 1)) (new_len - 1))
                else Inr (new_len, m)))"
  by pat_completeness auto
termination
  by (relation "measure (\<lambda>(m, p, n). nat (snd p + 1))")
     (auto simp: load_def ptr_add_def split: option.splits if_splits)

definition trim_right :: "state \<Rightarrow> error + state" where
  "trim_right st =
     (case st of (s, m) \<Rightarrow>
        if m_length s = 0 then Inr (s, m)
        else and_then (trim_right_loop m (ptr_add (m_data s) (m_length s - 1)) (m_length s))
               (\<lambda>(new_len, m'). Inr (s\<lparr>m_length := new_len\<rparr>, m')))"

definition trim_left :: "state \<Rightarrow> error + state" where
  "trim_left st =
     (case st of (s, m) \<Rightarrow>
        if m_length s = 0 then Inr (s, m)
        else
          and_then (cells_from m (m_data s)) (\<lambda>cs.
          and_then (skip_leading_whitespace cs) (\<lambda>d.
          and_then (narrow_int d) (\<lambda>displacement.
          if displacement > 0
          then
            (let new_len = m_length s - displacement in
             and_then (if new_len \<noteq> 0
                       then memcpy m (m_data s) (ptr_add (m_data s) displacement) new_len
                       else Inr m) (\<lambda>m1.
             and_then (store m1 (ptr_add (m_data s) new_len) NUL) (\<lambda>m2.
             Inr (s\<lparr>m_length := new_len\<rparr>, m2))))
          else Inr (s, m)))))"

definition trim :: "state \<Rightarrow> error + state" where
  "trim st = and_then (trim_right st) trim_left"

section \<open>Searching\<close>

text \<open>
  \<^verbatim>\<open>str::first_index_of(const char *)\<close>, \<^verbatim>\<open>str::last_index_of(const char *)\<close> and
  \<^verbatim>\<open>str::find_any_matching_index\<close>. Each loop reads the cells from \<^verbatim>\<open>m_data\<close> on, up to
  the terminator.
\<close>

fun first_index_loop :: "cell list \<Rightarrow> cell list \<Rightarrow> char \<Rightarrow> nat \<Rightarrow> int \<Rightarrow> error + int" where
  "first_index_loop [] sub c0 n i = Inl UndefinedBehaviour"
| "first_index_loop (None # cs) sub c0 n i = Inl UndefinedBehaviour"
| "first_index_loop (Some c # cs) sub c0 n i =
     (if c = NUL then Inr (- 1)
      else if c = c0
      then (case strncmp (Some c # cs) sub n of
              Inl e \<Rightarrow> Inl e
            | Inr r \<Rightarrow> if r = 0 then Inr i else first_index_loop cs sub c0 n (i + 1))
      else first_index_loop cs sub c0 n (i + 1))"

definition first_index_of :: "state \<Rightarrow> ptr \<Rightarrow> error + int" where
  "first_index_of st substring =
     (case st of (s, m) \<Rightarrow>
        and_then (if m_length s = 0 then Inr True
                  else and_then (load m substring) (\<lambda>c. Inr (c = NUL))) (\<lambda>none.
        if none then Inr (- 1)
        else
          and_then (cstr_length m substring) (\<lambda>substr_len.
          and_then (load m substring) (\<lambda>c0.
          and_then (cells_from m substring) (\<lambda>sub.
          and_then (cells_from m (m_data s)) (\<lambda>cs.
          first_index_loop cs sub c0 (nat substr_len) 0))))))"

fun last_index_loop :: "cell list \<Rightarrow> cell list \<Rightarrow> char \<Rightarrow> nat \<Rightarrow> int \<Rightarrow> int \<Rightarrow> error + int" where
  "last_index_loop [] sub c0 n i last_index = Inl UndefinedBehaviour"
| "last_index_loop (None # cs) sub c0 n i last_index = Inl UndefinedBehaviour"
| "last_index_loop (Some c # cs) sub c0 n i last_index =
     (if c = NUL then Inr last_index
      else if c = c0
      then (case strncmp (Some c # cs) sub n of
              Inl e \<Rightarrow> Inl e
            | Inr r \<Rightarrow> last_index_loop cs sub c0 n (i + 1) (if r = 0 then i else last_index))
      else last_index_loop cs sub c0 n (i + 1) last_index)"

definition last_index_of :: "state \<Rightarrow> ptr \<Rightarrow> error + int" where
  "last_index_of st substring =
     (case st of (s, m) \<Rightarrow>
        and_then (if m_length s = 0 then Inr True
                  else and_then (load m substring) (\<lambda>c. Inr (c = NUL))) (\<lambda>none.
        if none then Inr (- 1)
        else
          and_then (cstr_length m substring) (\<lambda>substr_len.
          and_then (load m substring) (\<lambda>c0.
          and_then (cells_from m substring) (\<lambda>sub.
          and_then (cells_from m (m_data s)) (\<lambda>cs.
          last_index_loop cs sub c0 (nat substr_len) 0 (- 1)))))))"

text \<open>
  The inner loop of \<^verbatim>\<open>find_any_matching_index\<close> runs over the character set and tells
  whether it stopped before the terminator of the set; the outer loop returns the distance
  \<^verbatim>\<open>ptr - start_ptr\<close>.
\<close>

fun charset_loop :: "cell list \<Rightarrow> char \<Rightarrow> error + bool" where
  "charset_loop [] c = Inl UndefinedBehaviour"
| "charset_loop (None # ks) c = Inl UndefinedBehaviour"
| "charset_loop (Some k # ks) c =
     (if k = NUL then Inr False
      else if c = k then Inr True
      else charset_loop ks c)"

fun find_any_loop :: "cell list \<Rightarrow> cell list \<Rightarrow> int \<Rightarrow> error + int" where
  "find_any_loop [] charset i = Inl UndefinedBehaviour"
| "find_any_loop (None # cs) charset i = Inl UndefinedBehaviour"
| "find_any_loop (Some c # cs) charset i =
     (if c = NUL then Inr i
      else (case charset_loop charset c of
              Inl e \<Rightarrow> Inl e
            | Inr found \<Rightarrow> if found then Inr i else find_any_loop cs charset (i + 1)))"

definition find_any_matching_index :: "state \<Rightarrow> ptr \<Rightarrow> error + int" where
  "find_any_matching_index st charset =
     (case st of (s, m) \<Rightarrow>
        and_then (if m_length s = 0 then Inr True
                  else and_then (load m charset) (\<lambda>c. Inr (c = NUL))) (\<lambda>none.
        if none then Inr (- 1)
        else
          and_then (cells_from m charset) (\<lambda>ks.
          and_then (cells_from m (m_data s)) (\<lambda>cs.
          and_then (find_any_loop cs ks 0) (\<lambda>d.
          and_then (narrow_int d) (\<lambda>match_index.
          Inr (if match_index \<ge> m_length s then - 1 else match_index)))))))"

section \<open>Well-formed instances\<close>

text \<open>
  The memory of a process before any string exists holds the dummy string
  \<^verbatim>\<open>static char s_dummy[] = {'\0','\0','\0','\0'}\<close>. A \<^verbatim>\<open>str_sized<Size>\<close> brings its
  member \<^verbatim>\<open>char m_local_buf[Size]\<close>, and a caller brings C strings of its own: character
  arrays, which may be written, and string literals, which may not.
\<close>

definition process_memory :: memory where
  "process_memory = \<lparr>blocks = (\<lambda>b. None)(Dummy \<mapsto> replicate 4 (Some NUL)),
                      allocs = 0, written = [], read_only = {}\<rparr>"

definition with_local_buf :: "nat \<Rightarrow> memory \<Rightarrow> memory" where
  "with_local_buf n m = m\<lparr>blocks := (blocks m)(Local \<mapsto> replicate n None)\<rparr>"

definition with_c_string :: "nat \<Rightarrow> string \<Rightarrow> memory \<Rightarrow> memory" where
  "with_c_string k tx m = m\<lparr>blocks := (blocks m)(Ext k \<mapsto> map Some tx @ [Some NUL]),
                             read_only := read_only m - {k}\<rparr>"

definition with_literal :: "nat \<Rightarrow> string \<Rightarrow> memory \<Rightarrow> memory" where
  "with_literal k tx m = m\<lparr>blocks := (blocks m)(Ext k \<mapsto> map Some tx @ [Some NUL]),
                            read_only := insert k (read_only m)\<rparr>"

text \<open>
  The invariants of the data model, as a predicate on an instance and the memory:
  the dummy string is intact; the length is the position of the first terminator of the
  active buffer; a positive local buffer size is the size of the embedded buffer; an owned
  buffer starts a live heap block or is the local buffer, offers at least \<^verbatim>\<open>capacity()\<close>
  cells, and \<^verbatim>\<open>capacity() >= length() + 1\<close>; an instance that owns nothing has capacity 0
  and points at the dummy string (then with length 0) or into storage of the caller.
\<close>

definition valid_state :: "state \<Rightarrow> bool" where
  "valid_state st =
     (case st of (s, m) \<Rightarrow>
        blocks m Dummy = Some (replicate 4 (Some NUL)) \<and>
        (case c_string m (m_data s) of
           Inl e \<Rightarrow> False
         | Inr text \<Rightarrow> int (length text) = m_length s) \<and>
        (local_buffer_size s > 0 \<longrightarrow>
           (case blocks m Local of
              None \<Rightarrow> False
            | Some cs \<Rightarrow> int (length cs) = local_buffer_size s)) \<and>
        (if m_owns_buffer s
         then snd (m_data s) = 0 \<and>
              (case fst (m_data s) of
                 Heap k \<Rightarrow> k < allocs m
               | Local \<Rightarrow> local_buffer_size s \<noteq> 0
               | _ \<Rightarrow> False) \<and>
              (case blocks m (fst (m_data s)) of
                 None \<Rightarrow> False
               | Some cs \<Rightarrow> capacity s \<le> int (length cs)) \<and>
              m_length s + 1 \<le> capacity s
         else capacity s = 0 \<and>
              (case fst (m_data s) of
                 Dummy \<Rightarrow> snd (m_data s) = 0
               | Ext k \<Rightarrow> True
               | _ \<Rightarrow> False)))"

section \<open>Properties\<close>

lemma and_then_Inr [simp]: "and_then (Inr x) f = f x"
  by (simp add: and_then_def)

lemma and_then_Inl [simp]: "and_then (Inl e) f = Inl e"
  by (simp add: and_then_def)

subsection \<open>Reading and writing cells\<close>

text \<open>Only storage of the caller can be read-only, and no operation changes what is.\<close>

lemma is_read_only_own [simp]:
  "is_read_only m Dummy = False" "is_read_only m Local = False"
  "is_read_only m (Heap k) = False"
  by (simp_all add: is_read_only_def)

lemma is_read_only_Ext [simp]: "is_read_only m (Ext k) = (k \<in> read_only m)"
  by (simp add: is_read_only_def)

lemma is_read_only_same: "read_only m' = read_only m \<Longrightarrow> is_read_only m' b = is_read_only m b"
  by (cases b) simp_all

lemma until_nul_text: "NUL \<notin> set tx \<Longrightarrow> until_nul (map Some tx @ Some NUL # rest) = Some tx"
  by (induction tx) auto

lemma until_nul_SomeD:
  "until_nul cs = Some tx \<Longrightarrow> NUL \<notin> set tx \<and> (\<exists>rest. cs = map Some tx @ Some NUL # rest)"
proof (induction cs arbitrary: tx rule: until_nul.induct)
  case 1 then show ?case by simp
next
  case (2 cs) then show ?case by simp
next
  case (3 c cs)
  then show ?case by (auto split: if_splits)
qed

lemma c_stringD:
  assumes "c_string m p = Inr tx"
  shows "\<exists>pre rest. blocks m (fst p) = Some (pre @ map Some tx @ Some NUL # rest) \<and>
           snd p = int (length pre) \<and> NUL \<notin> set tx"
proof -
  from assms obtain cs where cs: "blocks m (fst p) = Some cs" "0 \<le> snd p"
      "snd p \<le> int (length cs)" "until_nul (drop (nat (snd p)) cs) = Some tx"
    unfolding c_string_def by (auto split: option.splits if_splits)
  from until_nul_SomeD [OF cs(4)] obtain rest where
    r: "NUL \<notin> set tx" "drop (nat (snd p)) cs = map Some tx @ Some NUL # rest" by blast
  have "cs = take (nat (snd p)) cs @ map Some tx @ Some NUL # rest"
    using r(2) by (metis append_take_drop_id)
  moreover have "snd p = int (length (take (nat (snd p)) cs))" using cs(2,3) by simp
  ultimately show ?thesis using cs(1) r(1) by metis
qed

lemma c_stringI:
  assumes "blocks m (fst p) = Some (pre @ map Some tx @ Some NUL # rest)"
    "snd p = int (length pre)" "NUL \<notin> set tx"
  shows "c_string m p = Inr tx"
  using assms by (simp add: c_string_def until_nul_text)

lemma load_at:
  "blocks m (fst p) = Some (pre @ Some c # rest) \<Longrightarrow> snd p = int (length pre) \<Longrightarrow>
   load m p = Inr c"
  by (simp add: load_def)

lemma load_cells_at:
  "blocks m (fst p) = Some (pre @ vs @ rest) \<Longrightarrow> snd p = int (length pre) \<Longrightarrow>
   load_cells m p (length vs) = Inr vs"
  by (simp add: load_cells_def)

lemma store_cells_at:
  "blocks m (fst p) = Some (pre @ old @ rest) \<Longrightarrow> snd p = int (length pre) \<Longrightarrow>
   length old = length vs \<Longrightarrow> vs \<noteq> [] \<Longrightarrow> \<not> is_read_only m (fst p) \<Longrightarrow>
   store_cells m p vs = Inr (m\<lparr>blocks := (blocks m)(fst p \<mapsto> pre @ vs @ rest),
        written := written m @ map (\<lambda>i. (fst p, snd p + int i)) [0..<length vs]\<rparr>)"
  by (simp add: store_cells_def)

lemma store_at:
  "blocks m (fst p) = Some (pre @ old # rest) \<Longrightarrow> snd p = int (length pre) \<Longrightarrow>
   \<not> is_read_only m (fst p) \<Longrightarrow>
   store m p c = Inr (m\<lparr>blocks := (blocks m)(fst p \<mapsto> pre @ Some c # rest),
        written := written m @ [p]\<rparr>)"
  using store_cells_at [of m p pre "[old]" rest "[Some c]"]
  by (cases p) (simp add: store_def)

lemma load_cells_c_string:
  "c_string m src = Inr tx \<Longrightarrow> load_cells m src (length tx) = Inr (map Some tx)"
  by (drule c_stringD) (auto simp: load_cells_def)

lemma load_c_string:
  "c_string m src = Inr tx \<Longrightarrow> load m src = Inr (case tx of [] \<Rightarrow> NUL | c # _ \<Rightarrow> c)"
  by (drule c_stringD) (auto simp: load_def nth_append split: list.splits)

lemma valid_capacity_nonneg: "valid_state (s, m) \<Longrightarrow> 0 \<le> capacity s"
  by (auto simp: valid_state_def split: sum.splits if_splits)

lemma split_cells:
  "n \<le> length cs \<Longrightarrow> \<exists>old rest. cs = old @ rest \<and> length old = n"
  by (metis append_take_drop_id length_take min.absorb2)

lemma write_text:
  assumes b: "blocks m b = Some cs" and len: "length tx < length cs" and nul: "NUL \<notin> set tx"
    and src: "load_cells m src (length tx) = Inr (map Some tx)"
    and wr: "\<not> is_read_only m b"
  shows "\<exists>m1 m2. memcpy m (b, 0) src (int (length tx)) = Inr m1 \<and>
           store m1 (b, int (length tx)) NUL = Inr m2 \<and>
           c_string m2 (b, 0) = Inr tx \<and> allocs m2 = allocs m \<and>
           read_only m2 = read_only m \<and>
           (\<forall>b'. b' \<noteq> b \<longrightarrow> blocks m2 b' = blocks m b') \<and>
           (\<exists>cs2. blocks m2 b = Some cs2 \<and> length cs2 = length cs) \<and>
           (\<exists>ws. written m2 = written m @ ws \<and> (\<forall>p \<in> set ws. fst p = b))"
proof -
  from split_cells [of "Suc (length tx)" cs] len obtain old rest where
    cs: "cs = old @ rest" "length old = Suc (length tx)" by auto
  then obtain old' o1 where old: "old = old' @ [o1]" "length old' = length tx"
    by (metis length_Suc_conv_rev)
  have cs': "cs = [] @ old' @ (o1 # rest)" using cs old by simp
  obtain m1 where m1: "store_cells m (b, 0) (map Some tx) = Inr m1"
     "blocks m1 = (if tx = [] then blocks m else (blocks m)(b \<mapsto> map Some tx @ o1 # rest))"
     "allocs m1 = allocs m"
     "\<exists>ws. written m1 = written m @ ws \<and> (\<forall>p \<in> set ws. fst p = b)"
     "read_only m1 = read_only m"
  proof (cases "tx = []")
    case True
    then show ?thesis using that by (simp add: store_cells_def)
  next
    case False
    then show ?thesis
      using that store_cells_at [of m "(b, 0)" "[]" old' "o1 # rest" "map Some tx"] b cs' old wr
      by simp
  qed
  have wr1: "\<not> is_read_only m1 (fst (b, int (length tx)))"
    using wr is_read_only_same [OF m1(5)] by simp
  have b1: "blocks m1 (fst (b, int (length tx))) = Some (map Some tx @ o1 # rest)"
    using m1(2) b cs' old by (cases "tx = []") auto
  from store_at [OF b1 _ wr1, of NUL] have
    m2: "store m1 (b, int (length tx)) NUL =
       Inr (m1\<lparr>blocks := (blocks m1)(b \<mapsto> map Some tx @ Some NUL # rest),
              written := written m1 @ [(b, int (length tx))]\<rparr>)"
    by simp
  let ?m2 = "m1\<lparr>blocks := (blocks m1)(b \<mapsto> map Some tx @ Some NUL # rest),
              written := written m1 @ [(b, int (length tx))]\<rparr>"
  have "c_string ?m2 (b, 0) = Inr tx"
    by (rule c_stringI [where pre = "[]" and rest = rest]) (use nul in auto)
  moreover have "memcpy m (b, 0) src (int (length tx)) = Inr m1"
    using src m1(1) by (simp add: memcpy_def)
  moreover have "\<forall>b'. b' \<noteq> b \<longrightarrow> blocks ?m2 b' = blocks m b'"
    using m1(2) by auto
  moreover have "\<exists>ws. written ?m2 = written m @ ws \<and> (\<forall>p \<in> set ws. fst p = b)"
    using m1(4) by auto
  moreover have "\<exists>cs2. blocks ?m2 b = Some cs2 \<and> length cs2 = length cs"
    using cs old by simp
  ultimately show ?thesis using m2 m1(3,5) by auto
qed

subsection \<open>Well-formed instances and the storage transitions\<close>

lemma valid_owned:
  "valid_state (s, m) \<Longrightarrow> m_owns_buffer s \<Longrightarrow>
   \<exists>b cs. m_data s = (b, 0) \<and> blocks m b = Some cs \<and> capacity s \<le> int (length cs) \<and>
     m_length s + 1 \<le> capacity s \<and>
     (b = Local \<and> local_buffer_size s \<noteq> 0 \<or> (\<exists>k. b = Heap k \<and> k < allocs m))"
  by (cases "m_data s") (auto simp: valid_state_def split: block.splits option.splits)

lemma valid_not_owned:
  "valid_state (s, m) \<Longrightarrow> \<not> m_owns_buffer s \<Longrightarrow>
   capacity s = 0 \<and> (m_data s = (Dummy, 0) \<or> (\<exists>k. fst (m_data s) = Ext k))"
  by (cases "m_data s") (auto simp: valid_state_def split: block.splits)

lemma valid_local:
  "valid_state (s, m) \<Longrightarrow> 0 < local_buffer_size s \<Longrightarrow>
   \<exists>cs. blocks m Local = Some cs \<and> int (length cs) = local_buffer_size s"
  by (auto simp: valid_state_def split: option.splits)

lemma valid_content:
  "valid_state (s, m) \<Longrightarrow> \<exists>tx. c_string m (m_data s) = Inr tx \<and> int (length tx) = m_length s"
  by (auto simp: valid_state_def split: sum.splits)

lemma valid_dummy:
  "valid_state (s, m) \<Longrightarrow> blocks m Dummy = Some (replicate 4 (Some NUL))"
  by (auto simp: valid_state_def)

lemma release_owned_valid:
  assumes "valid_state (s, m)"
  shows "\<exists>m1. release_owned s m = Inr m1 \<and> allocs m1 = allocs m \<and> written m1 = written m \<and>
           (\<forall>b. (\<forall>k. b \<noteq> Heap k) \<longrightarrow> blocks m1 b = blocks m b) \<and>
           (\<forall>k. allocs m \<le> k \<longrightarrow> blocks m1 (Heap k) = blocks m (Heap k))"
proof (cases "m_owns_buffer s \<and> \<not> using_local_buffer s")
  case True
  with valid_owned [OF assms] obtain k cs where
    "m_data s = (Heap k, 0)" "blocks m (Heap k) = Some cs" "k < allocs m"
    by (auto simp: using_local_buffer_def get_local_buffer_def)
  then show ?thesis using True
    by (auto simp: release_owned_def mem_free_def get_empty_dummy_string_def)
next
  case False
  then show ?thesis by (auto simp: release_owned_def)
qed

lemma reserve_discard_grows:
  assumes v: "valid_state (s, m)" and n: "capacity s < n" and e: "0 \<le> extra"
  shows "\<exists>s1 m1 b cs. reserve_discard (s, m) n extra = Inr (s1, m1) \<and>
           m_data s1 = (b, 0) \<and> blocks m1 b = Some cs \<and> n \<le> int (length cs) \<and>
           (\<forall>k. blocks m1 (Ext k) = blocks m (Ext k)) \<and>
           blocks m1 Dummy = blocks m Dummy \<and> written m1 = written m @ [(b, 0)] \<and>
           m_local_buffer_size s1 = m_local_buffer_size s \<and>
           (if n < local_buffer_size s
            then b = Local \<and> allocs m1 = allocs m \<and>
                 m_capacity s1 = word_of_int (local_buffer_size s)
            else b = Heap (allocs m) \<and> allocs m1 = Suc (allocs m) \<and>
                 m_capacity s1 = word_of_int (n + extra) \<and> int (length cs) = n + extra)"
proof -
  from release_owned_valid [OF v] obtain m1 where
    m1: "release_owned s m = Inr m1" "allocs m1 = allocs m"
      "\<forall>b. (\<forall>k. b \<noteq> Heap k) \<longrightarrow> blocks m1 b = blocks m b"
      "written m1 = written m" by blast
  have n0: "0 < n" using valid_capacity_nonneg [OF v] n by simp
  show ?thesis
  proof (cases "n < local_buffer_size s")
    case True
    with n0 have "0 < local_buffer_size s" by simp
    from valid_local [OF v this] obtain cs where
      cs: "blocks m Local = Some cs" "int (length cs) = local_buffer_size s" by blast
    then obtain c0 rest where c0: "cs = c0 # rest" using True n0 by (cases cs) auto
    have "blocks m1 (fst (Local, 0::int)) = Some ([] @ c0 # rest)" using m1(3) cs c0 by simp
    from store_at [OF this, of NUL]
    have "store m1 (Local, 0) NUL = Inr (m1\<lparr>blocks := (blocks m1)(Local \<mapsto> Some NUL # rest),
        written := written m1 @ [(Local, 0)]\<rparr>)" by simp
    then show ?thesis using True n e m1 cs c0
      by (simp add: reserve_discard_def get_local_buffer_def)
  next
    case False
    have "store (m1\<lparr>blocks := (blocks m1)(Heap (allocs m1) \<mapsto> replicate (nat (n + extra)) None),
                   allocs := Suc (allocs m1)\<rparr>) (Heap (allocs m1), 0) NUL
      = Inr (m1\<lparr>blocks := (blocks m1)(Heap (allocs m1) \<mapsto> Some NUL # replicate (nat (n + extra) - 1) None),
                   allocs := Suc (allocs m1),
                   written := written m1 @ [(Heap (allocs m1), 0)]\<rparr>)"
      using store_at [of "m1\<lparr>blocks := (blocks m1)(Heap (allocs m1) \<mapsto> replicate (nat (n + extra)) None),
                   allocs := Suc (allocs m1)\<rparr>" "(Heap (allocs m1), 0)" "[]" None
                   "replicate (nat (n + extra) - 1) None" NUL] n0 e
      by (cases "nat (n + extra)") auto
    then show ?thesis using False n e n0 m1
      by (simp add: reserve_discard_def mem_alloc_def)
  qed
qed

text \<open>What \<^verbatim>\<open>clear_no_free\<close> and \<^verbatim>\<open>set\<close> do to a well-formed instance.\<close>

lemma c_string_cong: "blocks m1 (fst p) = blocks m (fst p) \<Longrightarrow> c_string m1 p = c_string m p"
  by (simp add: c_string_def)

lemma clear_no_free_valid:
  assumes v: "valid_state (s, m)" and wr: "\<not> is_read_only m (fst (m_data s))"
  shows "\<exists>s' m'. clear_no_free (s, m) = Inr (s', m') \<and> c_string m' (m_data s') = Inr [] \<and>
           m_length s' = 0 \<and> m_data s' = m_data s \<and> m_capacity s' = m_capacity s \<and>
           m_local_buffer_size s' = m_local_buffer_size s \<and>
           m_owns_buffer s' = m_owns_buffer s \<and> allocs m' = allocs m"
proof (cases "m_data s = get_empty_dummy_string")
  case True
  have "c_string m (Dummy, 0) = Inr []"
    using valid_dummy [OF v] by (simp add: c_string_def eval_nat_numeral)
  with valid_content [OF v] True show ?thesis
    by (auto simp: clear_no_free_def get_empty_dummy_string_def)
next
  case False
  from valid_content [OF v] obtain tx where "c_string m (m_data s) = Inr tx" by blast
  from c_stringD [OF this] obtain pre rest where
    b: "blocks m (fst (m_data s)) = Some (pre @ map Some tx @ Some NUL # rest)"
       "snd (m_data s) = int (length pre)" by blast
  then obtain old rest' where "blocks m (fst (m_data s)) = Some (pre @ old # rest')"
    by (cases tx) auto
  from store_at [OF this b(2) wr, of NUL] obtain m' where
    m': "store m (m_data s) NUL = Inr m'"
        "blocks m' (fst (m_data s)) = Some (pre @ map Some [] @ Some NUL # rest')"
        "allocs m' = allocs m"
    by simp
  have "c_string m' (m_data s) = Inr []"
    by (rule c_stringI [OF m'(2) b(2)]) simp
  then show ?thesis using False m' by (simp add: clear_no_free_def)
qed

lemma set_cstr_empty:
  assumes src: "c_string m src = Inr []"
  shows "set_cstr (s, m) src = clear_no_free (s, m)"
  using load_c_string [OF src] src
  by (simp add: set_cstr_def set_str_def cstr_length_def narrow_int_def ptr_add_def)

lemma set_cstr_nonempty:
  assumes v: "valid_state (s, m)" and src: "c_string m src = Inr tx" and ext: "fst src = Ext k"
    and len: "length tx < 2 ^ 31" and ne: "tx \<noteq> []"
  shows "\<exists>s1 m1 m3. (if capacity s < int (length tx) + 1
             then reserve_discard (s, m) (int (length tx) + 1) 16 else Inr (s, m)) = Inr (s1, m1) \<and>
           set_cstr (s, m) src = Inr (s1\<lparr>m_length := int (length tx), m_owns_buffer := True\<rparr>, m3) \<and>
           c_string m3 (m_data s1) = Inr tx \<and> allocs m3 = allocs m1 \<and>
           (\<exists>cs1 cs3. blocks m1 (fst (m_data s1)) = Some cs1 \<and>
              blocks m3 (fst (m_data s1)) = Some cs3 \<and> length cs3 = length cs1) \<and>
           (\<exists>ws. written m3 = written m1 @ ws \<and> (\<forall>p \<in> set ws. fst p = fst (m_data s1)))"
proof -
  define n where "n = int (length tx)"
  have n: "cstr_length m src = Inr n"
    using src len by (simp add: cstr_length_def narrow_int_def n_def)
  have nul: "NUL \<notin> set tx" using c_stringD [OF src] by blast
  have p0: "ptr_add src 0 = src" by (simp add: ptr_add_def)
  obtain c where c: "load m src = Inr c" "c \<noteq> NUL" "n \<noteq> 0" "0 \<le> n"
    using nul load_c_string [OF src] ne by (cases tx) (auto simp: n_def)
  have "\<exists>s1 m1 b cs. (if capacity s < n + 1
           then reserve_discard (s, m) (n + 1) 16 else Inr (s, m)) = Inr (s1, m1) \<and>
         m_data s1 = (b, 0) \<and> blocks m1 b = Some cs \<and> length tx < length cs \<and>
         blocks m1 (Ext k) = blocks m (Ext k) \<and> (b = Local \<or> (\<exists>j. b = Heap j))"
  proof (cases "capacity s < n + 1")
    case True
    from reserve_discard_grows [OF v True, of 16] obtain s1 m1 b cs where
      "reserve_discard (s, m) (n + 1) 16 = Inr (s1, m1)" "m_data s1 = (b, 0)"
      "blocks m1 b = Some cs" "n + 1 \<le> int (length cs)"
      "\<forall>k. blocks m1 (Ext k) = blocks m (Ext k)"
      "if n + 1 < local_buffer_size s then b = Local else b = Heap (allocs m)"
      by (auto split: if_splits)
    then show ?thesis using True unfolding n_def
      by (intro exI [of _ s1] exI [of _ m1] exI [of _ b] exI [of _ cs])
         (auto split: if_splits)
  next
    case False
    then have "m_owns_buffer s" using valid_not_owned [OF v] c by auto
    from valid_owned [OF v this] False show ?thesis unfolding n_def by fastforce
  qed
  then obtain s1 m1 b cs where
    r: "(if capacity s < n + 1
           then reserve_discard (s, m) (n + 1) 16 else Inr (s, m)) = Inr (s1, m1)"
      "m_data s1 = (b, 0)" "blocks m1 b = Some cs" "length tx < length cs"
      "blocks m1 (Ext k) = blocks m (Ext k)" "b = Local \<or> (\<exists>j. b = Heap j)" by blast
  have wr: "\<not> is_read_only m1 b" using r(6) by auto
  have "c_string m1 src = Inr tx" using c_string_cong [of m1 src m] r(5) ext src by simp
  from write_text [OF r(3,4) nul load_cells_c_string [OF this] wr] obtain m2 m3 where
    w: "memcpy m1 (b, 0) src n = Inr m2"
       "store m2 (b, n) NUL = Inr m3" "c_string m3 (b, 0) = Inr tx" "allocs m3 = allocs m1"
       "\<exists>ws. written m3 = written m1 @ ws \<and> (\<forall>p \<in> set ws. fst p = b)"
       "\<exists>cs2. blocks m3 b = Some cs2 \<and> length cs2 = length cs"
    unfolding n_def by blast
  have "set_str (s, m) src 0 n = Inr (s1\<lparr>m_length := n, m_owns_buffer := True\<rparr>, m3)"
    using c r(1,2) w by (simp add: set_str_def p0 ptr_add_def)
  then show ?thesis using n w(3,4,5,6) r(1,2,3) unfolding n_def [symmetric]
    by (auto simp add: set_cstr_def)
qed

text \<open>A value in the range of the capacity field is read back as it was stored.\<close>

lemma sint_capacity_field:
  "- (2 ^ 20) \<le> x \<Longrightarrow> x < 2 ^ 20 \<Longrightarrow> sint (word_of_int x :: 21 word) = x"
  by (simp add: sint_sbintrunc' signed_take_bit_int_eq_self)

lemma valid_local_owned:
  "valid_state (s, m) \<Longrightarrow> using_local_buffer s \<Longrightarrow> m_owns_buffer s \<and> 0 < capacity s"
  by (auto simp: valid_state_def using_local_buffer_def get_local_buffer_def
      split: sum.splits if_splits)

lemma set_cstr_local_mode:
  assumes v: "valid_state (s, m)" and loc: "using_local_buffer s"
    and buf: "blocks m Local = Some cs" and cap: "capacity s = int (length cs)"
    and src: "c_string m src = Inr tx" and ext: "fst src = Ext k" and len: "length tx < 2 ^ 31"
  shows "\<exists>s' m'. set_cstr (s, m) src = Inr (s', m') \<and>
           (if length tx < length cs
            then using_local_buffer s' \<and> allocs m' = allocs m
            else \<not> using_local_buffer s' \<and> allocs m' = Suc (allocs m) \<and> owns_buffer s' \<and>
                 m_data s' = (Heap (allocs m), 0) \<and>
                 (\<exists>cs'. blocks m' (Heap (allocs m)) = Some cs' \<and>
                    int (length cs') = int (length tx) + 17) \<and>
                 m_capacity s' = word_of_int (int (length tx) + 17))"
proof (cases "tx = []")
  case True
  then have "length tx < length cs" using valid_local_owned [OF v loc] cap by auto
  moreover have "\<not> is_read_only m (fst (m_data s))"
    using loc by (simp add: using_local_buffer_def get_local_buffer_def)
  ultimately show ?thesis
    using clear_no_free_valid [OF v] set_cstr_empty [of m src s] src True loc
    by (auto simp: using_local_buffer_def local_buffer_size_def)
next
  case False
  from set_cstr_nonempty [OF v src ext len False] obtain s1 m1 m3 where
    r: "(if capacity s < int (length tx) + 1
             then reserve_discard (s, m) (int (length tx) + 1) 16 else Inr (s, m)) = Inr (s1, m1)"
       "set_cstr (s, m) src = Inr (s1\<lparr>m_length := int (length tx), m_owns_buffer := True\<rparr>, m3)"
       "allocs m3 = allocs m1"
       "\<exists>cs1 cs3. blocks m1 (fst (m_data s1)) = Some cs1 \<and>
              blocks m3 (fst (m_data s1)) = Some cs3 \<and> length cs3 = length cs1" by blast
  show ?thesis
  proof (cases "length tx < length cs")
    case True
    then show ?thesis using r cap loc
      by (auto simp: using_local_buffer_def local_buffer_size_def)
  next
    case False
    then have grow: "capacity s < int (length tx) + 1" using cap by simp
    have "\<not> int (length tx) + 1 < local_buffer_size s"
      using valid_local [OF v] buf False by (cases "0 < local_buffer_size s") auto
    with reserve_discard_grows [OF v grow, of 16] r grow False show ?thesis
      by (auto simp: using_local_buffer_def get_local_buffer_def owns_buffer_def add.commute)
  qed
qed

lemma str_sized_8:
  "str_sized 8 (with_local_buf 8 m) =
     Inr (\<lparr>m_data = (Local, 0), m_length = 0, m_capacity = 8, m_local_buffer_size = 8,
           m_owns_buffer = True\<rparr>,
          m\<lparr>blocks := (blocks m)(Local \<mapsto> Some NUL # replicate 7 None),
            written := written m @ [(Local, 0)]\<rparr>)"
  by (simp add: str_sized_def with_local_buf_def store_def store_cells_def get_local_buffer_def
      eval_nat_numeral)

lemma str_sized_16:
  "str_sized 16 (with_local_buf 16 m) =
     Inr (\<lparr>m_data = (Local, 0), m_length = 0, m_capacity = 16, m_local_buffer_size = 16,
           m_owns_buffer = True\<rparr>,
          m\<lparr>blocks := (blocks m)(Local \<mapsto> Some NUL # replicate 15 None),
            written := written m @ [(Local, 0)]\<rparr>)"
  by (simp add: str_sized_def with_local_buf_def store_def store_cells_def get_local_buffer_def
      eval_nat_numeral)


lemma store_cells_fits:
  assumes "blocks m b = Some cs" "length vs \<le> length cs" "vs \<noteq> []" "\<not> is_read_only m b"
  shows "store_cells m (b, 0) vs =
     Inr (m\<lparr>blocks := (blocks m)(b \<mapsto> vs @ drop (length vs) cs),
            written := written m @ map (\<lambda>i. (b, int i)) [0..<length vs]\<rparr>)"
  using assms by (simp add: store_cells_def)

lemma reserve_grows:
  assumes v: "valid_state (s, m)" and n: "capacity s < n" and e: "0 \<le> extra"
    and own: "m_owns_buffer s \<or>
              m_length s < (if n < local_buffer_size s then local_buffer_size s else n + extra)"
  shows "\<exists>s1 m1. reserve (s, m) n extra = Inr (s1, m1) \<and>
           c_string m1 (m_data s1) = c_string m (m_data s) \<and>
           m_length s1 = m_length s \<and> m_owns_buffer s1 \<and>
           m_local_buffer_size s1 = m_local_buffer_size s \<and>
           m_capacity s1 = word_of_int (if n < local_buffer_size s then local_buffer_size s
                                        else n + extra) \<and>
           (fst (m_data s1) = Local \<or> fst (m_data s1) = Heap (allocs m)) \<and>
           (\<exists>ws. written m1 = written m @ ws \<and> (\<forall>p \<in> set ws. fst p = fst (m_data s1)))"
proof -
  from valid_content [OF v] obtain tx where
    tx: "c_string m (m_data s) = Inr tx" "int (length tx) = m_length s" by blast
  have nul: "NUL \<notin> set tx" using c_stringD [OF tx(1)] by blast
  have n0: "0 < n" using valid_capacity_nonneg [OF v] n by simp
  define new_cap where
    "new_cap = (if n < local_buffer_size s then local_buffer_size s else n + extra)"
  have nc: "n \<le> new_cap" using e by (simp add: new_cap_def)
  have fit: "int (length tx) + 1 \<le> new_cap"
    using own valid_owned [OF v] n tx(2) nc unfolding new_cap_def [symmetric] by auto
  define vs where "vs = map Some tx @ [Some NUL]"
  have vs: "vs \<noteq> []" "int (length vs) \<le> new_cap" using fit by (auto simp: vs_def)
  have "\<exists>b m1 cs. (if n < local_buffer_size s
             then Inr (get_local_buffer, local_buffer_size s, m)
             else (case mem_alloc m (n + extra) of
                     None \<Rightarrow> Inl AssertionFailed
                   | Some (p, m1) \<Rightarrow> Inr (p, n + extra, m1))) = Inr ((b, 0), new_cap, m1) \<and>
          blocks m1 b = Some cs \<and> new_cap = int (length cs) \<and>
          (b = Local \<or> b = Heap (allocs m)) \<and>
          (\<forall>b'. b' \<noteq> Heap (allocs m) \<longrightarrow> blocks m1 b' = blocks m b') \<and>
          written m1 = written m"
  proof (cases "n < local_buffer_size s")
    case True
    with n0 valid_local [OF v] show ?thesis by (auto simp: get_local_buffer_def new_cap_def)
  next
    case False
    then show ?thesis using n0 e by (auto simp: mem_alloc_def new_cap_def)
  qed
  then obtain b m1 cs where
    a: "(if n < local_buffer_size s
             then Inr (get_local_buffer, local_buffer_size s, m)
             else (case mem_alloc m (n + extra) of
                     None \<Rightarrow> Inl AssertionFailed
                   | Some (p, m1) \<Rightarrow> Inr (p, n + extra, m1))) = Inr ((b, 0), new_cap, m1)"
       "new_cap = (if n < local_buffer_size s then local_buffer_size s else n + extra)"
       "blocks m1 b = Some cs" "new_cap = int (length cs)" "b = Local \<or> b = Heap (allocs m)"
       "\<forall>b'. b' \<noteq> Heap (allocs m) \<longrightarrow> blocks m1 b' = blocks m b'"
       "written m1 = written m" unfolding new_cap_def [symmetric] by blast
  have ro: "\<not> is_read_only m1 b" using a(5) by auto
  have old: "fst (m_data s) \<noteq> Heap (allocs m)"
    using valid_owned [OF v] valid_not_owned [OF v] by (cases "m_owns_buffer s") auto
  then have "c_string m1 (m_data s) = Inr tx"
    using c_string_cong [of m1 "m_data s" m] a(6) tx(1) by simp
  moreover
  define m2 where "m2 = m1\<lparr>blocks := (blocks m1)(b \<mapsto> vs @ drop (length vs) cs),
            written := written m1 @ map (\<lambda>i. (b, int i)) [0..<length vs]\<rparr>"
  have "store_cells m1 (b, 0) vs = Inr m2"
    unfolding m2_def using store_cells_fits [OF a(3) _ vs(1) ro] vs(2) a(4) by simp
  ultimately have cp: "strcpy m1 (b, 0) (m_data s) = Inr m2"
    by (simp add: strcpy_def vs_def)
  have c2: "c_string m2 (b, 0) = Inr tx"
    by (rule c_stringI [where pre = "[]" and rest = "drop (length vs) cs"])
       (use nul in \<open>simp_all add: m2_def vs_def\<close>)
  have "\<exists>m3. release_owned s m2 = Inr m3 \<and> blocks m3 b = blocks m2 b \<and>
      written m3 = written m2"
  proof (cases "m_owns_buffer s \<and> \<not> using_local_buffer s")
    case True
    with valid_owned [OF v] obtain k cs' where
      k: "m_data s = (Heap k, 0)" "blocks m (Heap k) = Some cs'" "k < allocs m"
      by (auto simp: using_local_buffer_def get_local_buffer_def)
    then have "blocks m2 (Heap k) \<noteq> None" "b \<noteq> Heap k"
      using a(5,6) by (auto simp: m2_def)
    then show ?thesis using True k
      by (auto simp: release_owned_def mem_free_def get_empty_dummy_string_def)
  next
    case False
    then show ?thesis by (auto simp: release_owned_def)
  qed
  then obtain m3 where m3: "release_owned s m2 = Inr m3" "blocks m3 b = blocks m2 b"
    "written m3 = written m2" by blast
  have wr: "\<exists>ws. written m3 = written m @ ws \<and> (\<forall>p \<in> set ws. fst p = b)"
    using m3(3) a(7) by (auto simp: m2_def)
  have "c_string m3 (b, 0) = Inr tx"
    using c_string_cong [of m3 "(b, 0)" m2] m3(2) c2 by simp
  moreover have "reserve (s, m) n extra =
      Inr (s\<lparr>m_data := (b, 0), m_capacity := word_of_int new_cap, m_owns_buffer := True\<rparr>, m3)"
    using n e a(1) cp m3(1) by (simp add: reserve_def)
  ultimately show ?thesis using tx(1) a(2,5) wr by simp
qed


lemma str_sized_too_big: "1024 \<le> n \<Longrightarrow> str_sized n m = Inl AssertionFailed"
  by (simp add: str_sized_def Let_def)

lemma valid_default: "valid_state (str_default, process_memory)"
  by (simp add: valid_state_def str_default_def process_memory_def
      c_string_def capacity_def local_buffer_size_def get_empty_dummy_string_def
      eval_nat_numeral)

text \<open>
  \<^verbatim>\<open>capacity()\<close> and the value stored into the capacity field agree in their low 21 bits.
\<close>

lemma sint_mod_field: "sint (w :: 21 word) mod 2 ^ 21 = uint w"
  by (simp add: uint_sint take_bit_eq_mod)

lemma capacity_field_bits:
  "m_capacity s = word_of_int x \<Longrightarrow> capacity s mod 2 ^ 21 = x mod 2 ^ 21"
  unfolding capacity_def sint_mod_field by (simp add: uint_word_of_int take_bit_eq_mod)

text \<open>The definitions that evaluate a run of the model on concrete input.\<close>

lemmas model_defs = set_cstr_def set_str_def cstr_length_def c_string_def narrow_int_def
  ptr_add_def load_def reserve_discard_def release_owned_def mem_alloc_def mem_free_def
  memcpy_def load_cells_def store_def store_cells_def using_local_buffer_def
  get_local_buffer_def get_empty_dummy_string_def capacity_def local_buffer_size_def
  str_default_def process_memory_def with_c_string_def with_literal_def clear_no_free_def
  set_ref_def
  set_ref_at_def owns_buffer_def c_str_def length_str_def NUL_def

lemmas format_defs = setfv_no_grow_def setfv_def appendfv_def vsnprintf_def str_sized_def
  with_local_buf_def Let_def

lemma release_owned_blocks:
  assumes "valid_state (s, m)"
  shows "\<exists>m1. release_owned s m = Inr m1 \<and> allocs m1 = allocs m \<and> written m1 = written m \<and>
           blocks m1 = (if m_owns_buffer s \<and> \<not> using_local_buffer s
                        then (blocks m)(fst (m_data s) := None) else blocks m)"
proof (cases "m_owns_buffer s \<and> \<not> using_local_buffer s")
  case True
  with valid_owned [OF assms] obtain k cs where
    "m_data s = (Heap k, 0)" "blocks m (Heap k) = Some cs"
    by (auto simp: using_local_buffer_def get_local_buffer_def)
  then show ?thesis using True
    by (auto simp: release_owned_def mem_free_def get_empty_dummy_string_def)
next
  case False
  then show ?thesis by (auto simp: release_owned_def)
qed

text \<open>
  \<^verbatim>\<open>reserve\<close> sizes the new buffer by the request alone. A reference to a string that is
  longer than the request does not fit: here \<^verbatim>\<open>std::strcpy\<close> runs over the end of an
  8-byte local buffer.
\<close>

lemma reserve_reference_overflow:
  "\<exists>s0 m0 s1 m1.
     str_sized 8 (with_local_buf 8 (with_c_string 0 ''a long referenced string'' process_memory))
       = Inr (s0, m0) \<and>
     set_ref (s0, m0) (Ext 0, 0) = Inr (s1, m1) \<and> valid_state (s1, m1) \<and>
     reserve (s1, m1) 4 16 = Inl UndefinedBehaviour"
  unfolding str_sized_8
  by (simp add: model_defs reserve_def strcpy_def valid_state_def)





text \<open>
  Every \<^verbatim>\<open>str_sized<N>\<close> with \<open>0 < N < 1024\<close> starts as a well-formed instance in local
  mode with capacity \<open>N\<close>. Its local buffer size field holds \<open>N\<close> only up to 511: the
  field has 10 bits and a sign.
\<close>

lemma wrap_10_bits:
  "0 < (n::int) \<Longrightarrow> n < 1024 \<Longrightarrow>
   (n + 512) mod 1024 - 512 = (if n < 512 then n else n - 1024)"
proof (cases "n < 512")
  case True
  assume "0 < n"
  with True have "(n + 512) mod 1024 = n + 512" by (intro mod_pos_pos_trivial) auto
  with True show ?thesis by simp
next
  case False
  assume "n < 1024"
  with False have "(n - 512) mod 1024 = n - 512" by (intro mod_pos_pos_trivial) auto
  moreover have "n + 512 = n - 512 + 1024" by simp
  then have "(n + 512) mod 1024 = (n - 512 + 1024) mod 1024" by (rule arg_cong)
  ultimately have "(n + 512) mod 1024 = n - 512" by (simp only: mod_add_self2)
  with False show ?thesis by simp
qed

lemma sint_local_size_field:
  "0 < n \<Longrightarrow> n < 1024 \<Longrightarrow>
   sint (word_of_int n :: 10 word) = (if n < 512 then n else n - 1024)"
  using wrap_10_bits [of n] by (simp only: int_word_sint) simp

lemma str_sized_valid:
  assumes n: "0 < n" "n < 1024" and d: "blocks m Dummy = Some (replicate 4 (Some NUL))"
    and l: "blocks m Local = Some cs" "int (length cs) = n"
  shows "\<exists>s' m'. str_sized n m = Inr (s', m') \<and> valid_state (s', m') \<and>
           using_local_buffer s' \<and> capacity s' = n \<and> length_str s' = 0 \<and>
           local_buffer_size s' = (if n < 512 then n else n - 1024)"
proof -
  obtain c0 rest where cs: "cs = c0 # rest" using n l by (cases cs) auto
  have "blocks m (fst (Local, 0 :: int)) = Some ([] @ c0 # rest)" using l cs by simp
  from store_at [OF this, of NUL]
  have st: "store m (Local, 0) NUL = Inr (m\<lparr>blocks := (blocks m)(Local \<mapsto> Some NUL # rest),
        written := written m @ [(Local, 0)]\<rparr>)" by simp
  define s' where "s' = \<lparr>m_data = (Local, 0), m_length = 0,
                m_capacity = word_of_int n :: 21 word,
                m_local_buffer_size = word_of_int n :: 10 word,
                m_owns_buffer = True\<rparr>"
  define m' where "m' = m\<lparr>blocks := (blocks m)(Local \<mapsto> Some NUL # rest),
        written := written m @ [(Local, 0)]\<rparr>"
  have run: "str_sized n m = Inr (s', m')"
    using st n by (simp add: str_sized_def Let_def get_local_buffer_def s'_def m'_def)
  have cap: "capacity s' = n"
    unfolding capacity_def s'_def by simp (rule sint_capacity_field, use n in auto)
  have lbs: "local_buffer_size s' = (if n < 512 then n else n - 1024)"
    unfolding local_buffer_size_def s'_def using sint_local_size_field [OF n] by simp
  have lbs0: "local_buffer_size s' \<noteq> 0" using lbs n by (auto split: if_splits)
  have fields: "m_data s' = (Local, 0)" "m_length s' = 0" "m_owns_buffer s'"
    by (simp_all add: s'_def)
  have buf: "blocks m' Local = Some (Some NUL # rest)" "blocks m' Dummy = blocks m Dummy"
    by (simp_all add: m'_def)
  have "c_string m' (Local, 0) = Inr []"
    by (rule c_stringI [where pre = "[]" and rest = rest]) (simp_all add: buf)
  then have "valid_state (s', m')"
    unfolding valid_state_def using lbs0 d n l cs
    by (simp add: cap lbs fields buf)
  moreover have "using_local_buffer s'"
    using lbs0 by (simp add: using_local_buffer_def get_local_buffer_def s'_def)
  moreover have "length_str s' = 0" by (simp add: length_str_def s'_def)
  ultimately show ?thesis using run cap lbs by blast
qed

subsection \<open>The claims\<close>

text \<open>
  C9. \<^verbatim>\<open>pop_back()\<close> on an empty string (\<^verbatim>\<open>length() == 0\<close>) returns with the header
  (data pointer, length, capacity, local buffer size, ownership flag) and the whole memory
  (every block, hence the buffer contents, and the list of stored addresses) unchanged:
  nothing is written, in bounds or out of bounds.
\<close>

theorem pop_back_empty_noop:
  "length_str s = 0 \<Longrightarrow> pop_back (s, m) = Inr (s, m)"
  by (simp add: pop_back_def length_str_def)

theorem pop_back_empty_noop_witness:
  "length_str str_default = 0 \<and>
   pop_back (str_default, process_memory) = Inr (str_default, process_memory)"
  using pop_back_empty_noop [of str_default process_memory]
  by (simp add: length_str_def str_default_def)

text \<open>
  C10. \<^verbatim>\<open>first_index_of(substring)\<close>, \<^verbatim>\<open>last_index_of(substring)\<close> and
  \<^verbatim>\<open>find_any_matching_index(charset)\<close> return the not-found value \<open>-1\<close> whenever the
  string is empty (\<^verbatim>\<open>length() == 0\<close>) or the needle or character set is the empty string
  (its first byte is the terminator), even though every string contains the empty
  substring.
\<close>

theorem search_empty_not_found:
  "length_str s = 0 \<or> load m needle = Inr NUL \<Longrightarrow>
   first_index_of (s, m) needle = Inr (- 1) \<and>
   last_index_of (s, m) needle = Inr (- 1) \<and>
   find_any_matching_index (s, m) needle = Inr (- 1)"
  by (auto simp: first_index_of_def last_index_of_def find_any_matching_index_def
      length_str_def)

theorem search_empty_not_found_witness:
  "(length_str (str_default\<lparr>m_data := (Ext 0, 0), m_length := 3\<rparr>) = 0 \<or>
    load (with_c_string 1 [] (with_c_string 0 ''abc'' process_memory)) (Ext 1, 0) = Inr NUL) \<and>
   first_index_of (str_default\<lparr>m_data := (Ext 0, 0), m_length := 3\<rparr>,
     with_c_string 1 [] (with_c_string 0 ''abc'' process_memory)) (Ext 1, 0) = Inr (- 1) \<and>
   last_index_of (str_default\<lparr>m_data := (Ext 0, 0), m_length := 3\<rparr>,
     with_c_string 1 [] (with_c_string 0 ''abc'' process_memory)) (Ext 1, 0) = Inr (- 1) \<and>
   find_any_matching_index (str_default\<lparr>m_data := (Ext 0, 0), m_length := 3\<rparr>,
     with_c_string 1 [] (with_c_string 0 ''abc'' process_memory)) (Ext 1, 0) = Inr (- 1)"
proof -
  have needle: "load (with_c_string 1 [] (with_c_string 0 ''abc'' process_memory)) (Ext 1, 0)
      = Inr NUL"
    by (simp add: with_c_string_def process_memory_def load_def)
  then show ?thesis
    using search_empty_not_found [of "str_default\<lparr>m_data := (Ext 0, 0), m_length := 3\<rparr>"
        "with_c_string 1 [] (with_c_string 0 ''abc'' process_memory)" "(Ext 1, 0)"]
    by simp
qed

text \<open>
  \<^verbatim>\<open>set\<close> of a C string held in storage of the caller, on a well-formed instance. When
  the source is not empty, or the instance does not point into read-only storage,
  \<^verbatim>\<open>set(s)\<close> returns, \<^verbatim>\<open>c_str()\<close> then points at exactly the bytes of the source
  followed by the terminator, and \<^verbatim>\<open>length()\<close> is their number. This holds for every
  length \<open>L\<close> with \<open>L + 17\<close> in the range of \<^verbatim>\<open>int\<close>, also where the capacity field
  cannot hold \<open>L + 17\<close>.
\<close>

lemma set_cstr_reproduces:
  assumes v: "valid_state (s, m)" and src: "c_string m src = Inr tx" and ext: "fst src = Ext k"
    and len: "length tx + 17 < 2 ^ 31"
    and wr: "tx \<noteq> [] \<or> \<not> is_read_only m (fst (m_data s))"
  shows "\<exists>s' m'. set_cstr (s, m) src = Inr (s', m') \<and> c_string m' (c_str s') = Inr tx \<and>
           length_str s' = int (length tx)"
proof (cases "tx = []")
  case True
  then have "\<not> is_read_only m (fst (m_data s))" using wr by simp
  from clear_no_free_valid [OF v this] set_cstr_empty [of m src s] src True show ?thesis
    by (auto simp: c_str_def length_str_def)
next
  case False
  have "length tx < 2 ^ 31" using len by simp
  from set_cstr_nonempty [OF v src ext this False] show ?thesis
    by (auto simp: c_str_def length_str_def)
qed

text \<open>
  C1. \<^verbatim>\<open>set(s)\<close> followed by \<^verbatim>\<open>c_str()\<close> is to reproduce \<open>s\<close>, with \<^verbatim>\<open>length()\<close> the
  number of its bytes, for every byte sequence without terminators. The code does so
  (lemma \<open>set_cstr_reproduces\<close>) except for the empty sequence on an instance that
  references read-only storage. \<^verbatim>\<open>set("")\<close> calls \<^verbatim>\<open>clear_no_free\<close>, whose guard compares
  the data pointer with the dummy string only, and \<^verbatim>\<open>clear_no_free\<close> stores a terminator
  through the pointer that \<^verbatim>\<open>set_ref\<close> took from a \<^verbatim>\<open>const char *\<close>. After
  \<^verbatim>\<open>str s; s.set_ref("hey!"); s.set("");\<close> the store goes into the string literal, which
  is undefined behaviour, where \<^verbatim>\<open>c_str()\<close> was to return an empty string and
  \<^verbatim>\<open>length()\<close> zero.
\<close>

theorem set_empty_on_literal_reference:
  "\<exists>s1 m1.
     set_ref (str_default, with_literal 1 [] (with_literal 0 ''hey!'' process_memory)) (Ext 0, 0)
       = Inr (s1, m1) \<and>
     c_str s1 = (Ext 0, 0) \<and> length_str s1 = 4 \<and> \<not> owns_buffer s1 \<and>
     c_string m1 (c_str s1) = Inr ''hey!'' \<and> c_string m1 (Ext 1, 0) = Inr [] \<and>
     set_cstr (s1, m1) (Ext 1, 0) = Inl UndefinedBehaviour"
  by (simp add: model_defs)

text \<open>
  C4, as the code has it. For every \<^verbatim>\<open>str_sized<N>\<close> instance in local mode (its capacity is
  the size \<open>N\<close> of the embedded buffer) and every content of length \<open>L\<close> assigned with
  \<^verbatim>\<open>set\<close>: if \<open>L < N\<close> the instance remains in local mode and nothing is allocated; if
  \<open>L \<ge> N\<close> it leaves local mode after exactly one heap allocation, of \<open>L + 17\<close> bytes
  (the content, its terminator and 16 bytes of slack, so at least \<open>L + 1\<close>), with
  \<^verbatim>\<open>owns_buffer()\<close> true. The capacity field keeps the low 21 bits of that size:
  \<^verbatim>\<open>capacity()\<close> agrees with \<open>L + 17\<close> modulo \<open>2^21\<close>. So \<^verbatim>\<open>capacity() >= L + 1\<close> is
  lost for content beyond the 2 MB that the field is documented to hold: the
  counterexample is a content of \<open>2^21\<close> bytes, after which \<^verbatim>\<open>capacity()\<close> is 17.
\<close>

theorem set_sized_local_or_one_alloc:
  assumes v: "valid_state (s, m)" and loc: "using_local_buffer s"
    and buf: "blocks m Local = Some cs" and cap: "capacity s = int (length cs)"
    and src: "c_string m src = Inr tx" and ext: "fst src = Ext k"
    and len: "length tx + 17 < 2 ^ 31"
  shows "\<exists>s' m'. set_cstr (s, m) src = Inr (s', m') \<and>
           (if length tx < length cs
            then using_local_buffer s' \<and> allocs m' = allocs m
            else \<not> using_local_buffer s' \<and> allocs m' = Suc (allocs m) \<and> owns_buffer s' \<and>
                 c_str s' = (Heap (allocs m), 0) \<and>
                 (\<exists>cs'. blocks m' (Heap (allocs m)) = Some cs' \<and>
                    int (length cs') = int (length tx) + 17) \<and>
                 capacity s' mod 2 ^ 21 = (int (length tx) + 17) mod 2 ^ 21)"
proof -
  have "length tx < 2 ^ 31" using len by simp
  from set_cstr_local_mode [OF v loc buf cap src ext this] obtain s' m' where
    r: "set_cstr (s, m) src = Inr (s', m')"
       "if length tx < length cs
            then using_local_buffer s' \<and> allocs m' = allocs m
            else \<not> using_local_buffer s' \<and> allocs m' = Suc (allocs m) \<and> owns_buffer s' \<and>
                 m_data s' = (Heap (allocs m), 0) \<and>
                 (\<exists>cs'. blocks m' (Heap (allocs m)) = Some cs' \<and>
                    int (length cs') = int (length tx) + 17) \<and>
                 m_capacity s' = word_of_int (int (length tx) + 17)" by blast
  show ?thesis
  proof (cases "length tx < length cs")
    case True
    with r show ?thesis by auto
  next
    case False
    with r(2) have h: "\<not> using_local_buffer s'" "allocs m' = Suc (allocs m)" "owns_buffer s'"
      "m_data s' = (Heap (allocs m), 0)"
      "\<exists>cs'. blocks m' (Heap (allocs m)) = Some cs' \<and> int (length cs') = int (length tx) + 17"
      "m_capacity s' = word_of_int (int (length tx) + 17)" by auto
    have "capacity s' mod 2 ^ 21 = (int (length tx) + 17) mod 2 ^ 21"
      by (rule capacity_field_bits [OF h(6)])
    with h r(1) False show ?thesis by (auto simp: c_str_def)
  qed
qed

theorem set_sized_capacity_counterexample:
  "\<exists>s0 m0 s' m'.
     str_sized 16 (with_local_buf 16 (with_c_string 0 (replicate 2097152 CHR ''a'') process_memory))
       = Inr (s0, m0) \<and>
     set_cstr (s0, m0) (Ext 0, 0) = Inr (s', m') \<and> capacity s' = 17 \<and>
     \<not> int (length (replicate 2097152 CHR ''a'')) + 1 \<le> capacity s'"
proof -
  define M0 where "M0 = with_c_string 0 (replicate 2097152 CHR ''a'') process_memory"
  define M where "M = with_local_buf 16 M0"
  define s0 where "s0 = \<lparr>m_data = (Local, 0), m_length = 0, m_capacity = 16 :: 21 word,
     m_local_buffer_size = 16 :: 10 word, m_owns_buffer = True\<rparr>"
  define m0 where "m0 = M0\<lparr>blocks := (blocks M0)(Local \<mapsto> Some NUL # replicate 15 None),
            written := written M0 @ [(Local, 0)]\<rparr>"
  have c: "str_sized 16 M = Inr (s0, m0)"
    unfolding M_def m0_def s0_def by (rule str_sized_16)
  have v: "valid_state (s0, m0)"
    by (simp add: valid_state_def s0_def m0_def M0_def with_c_string_def
        process_memory_def c_string_def capacity_def local_buffer_size_def)
  have loc: "using_local_buffer s0"
    by (simp add: using_local_buffer_def s0_def get_local_buffer_def local_buffer_size_def)
  have buf: "blocks m0 Local = Some (Some NUL # replicate 15 None)" by (simp add: m0_def)
  have cap: "capacity s0 = int (length (Some NUL # replicate 15 (None :: cell)))"
    by (simp add: capacity_def s0_def)
  have src: "c_string m0 (Ext 0, 0) = Inr (replicate 2097152 CHR ''a'')"
    by (rule c_stringI [where pre = "[]" and rest = "[]"])
       (simp_all add: m0_def M0_def with_c_string_def NUL_def)
  have len: "length (replicate 2097152 CHR ''a'') < (2 :: nat) ^ 31" by simp
  from set_cstr_local_mode [OF v loc buf cap src _ len, of 0] obtain s' m' where
    "set_cstr (s0, m0) (Ext 0, 0) = Inr (s', m')"
    "m_capacity s' = word_of_int (int (length (replicate 2097152 CHR ''a'')) + 17)"
    by auto
  then show ?thesis using c unfolding M_def M0_def by (auto simp: capacity_def)
qed

theorem set_sized_local_or_one_alloc_witness:
  "\<exists>s0 m0 cs.
     str_sized 8 (with_local_buf 8 (with_c_string 0 ''filename.h'' process_memory)) = Inr (s0, m0) \<and>
     valid_state (s0, m0) \<and> using_local_buffer s0 \<and> blocks m0 Local = Some cs \<and>
     capacity s0 = int (length cs) \<and> c_string m0 (Ext 0, 0) = Inr ''filename.h'' \<and>
     fst (Ext 0, 0 :: int) = Ext 0 \<and> length ''filename.h'' + 17 < (2 :: nat) ^ 31 \<and>
     \<not> length ''filename.h'' < length cs \<and>
     (\<exists>s' m'. set_cstr (s0, m0) (Ext 0, 0) = Inr (s', m') \<and>
        \<not> using_local_buffer s' \<and> allocs m' = Suc (allocs m0) \<and> owns_buffer s' \<and>
        c_str s' = (Heap (allocs m0), 0) \<and>
        (\<exists>cs'. blocks m' (Heap (allocs m0)) = Some cs' \<and> length cs' = 27) \<and>
        capacity s' mod 2 ^ 21 = 27)"
proof -
  define M0 where "M0 = with_c_string 0 ''filename.h'' process_memory"
  define s0 where "s0 = \<lparr>m_data = (Local, 0), m_length = 0, m_capacity = 8 :: 21 word,
     m_local_buffer_size = 8 :: 10 word, m_owns_buffer = True\<rparr>"
  define m0 where "m0 = M0\<lparr>blocks := (blocks M0)(Local \<mapsto> Some NUL # replicate 7 None),
            written := written M0 @ [(Local, 0)]\<rparr>"
  have c: "str_sized 8 (with_local_buf 8 M0) = Inr (s0, m0)"
    unfolding m0_def s0_def by (rule str_sized_8)
  have v: "valid_state (s0, m0)"
    by (simp add: valid_state_def s0_def m0_def M0_def with_c_string_def
        process_memory_def c_string_def capacity_def local_buffer_size_def)
  have loc: "using_local_buffer s0"
    by (simp add: using_local_buffer_def s0_def get_local_buffer_def local_buffer_size_def)
  have buf: "blocks m0 Local = Some (Some NUL # replicate 7 None)" by (simp add: m0_def)
  have cap: "capacity s0 = int (length (Some NUL # replicate 7 (None :: cell)))"
    by (simp add: capacity_def s0_def)
  have src: "c_string m0 (Ext 0, 0) = Inr ''filename.h''"
    by (simp add: m0_def M0_def with_c_string_def c_string_def NUL_def)
  have len: "length ''filename.h'' + 17 < (2 :: nat) ^ 31" by simp
  from set_sized_local_or_one_alloc [OF v loc buf cap src _ len, of 0]
  have "\<exists>s' m'. set_cstr (s0, m0) (Ext 0, 0) = Inr (s', m') \<and>
        \<not> using_local_buffer s' \<and> allocs m' = Suc (allocs m0) \<and> owns_buffer s' \<and>
        c_str s' = (Heap (allocs m0), 0) \<and>
        (\<exists>cs'. blocks m' (Heap (allocs m0)) = Some cs' \<and> length cs' = 27) \<and>
        capacity s' mod 2 ^ 21 = 27"
    by simp
  with c v loc buf cap src show ?thesis unfolding M0_def by auto
qed




text \<open>
  C6, as the code has it. Construction with a local buffer size of 1024 or more signals the
  assertion hook. \<^verbatim>\<open>reserve\<close> and \<^verbatim>\<open>reserve_discard\<close> have no check of the requested
  capacity against the capacity field. On a well-formed string, for every request beyond
  the current capacity that does not fit the local buffer, and every slack
  \<^verbatim>\<open>dynamic_alloc_extra\<close> that is not negative (their sum in the range of \<^verbatim>\<open>int\<close>),
  \<^verbatim>\<open>reserve_discard\<close> returns normally, and so does \<^verbatim>\<open>reserve\<close> when the string owns its
  buffer or is shorter than the request plus the slack, the size of the buffer acquired.
  The capacity field then keeps the low 21 bits of the request plus the slack:
  \<^verbatim>\<open>capacity()\<close> agrees with it modulo \<open>2^21\<close>, and what exceeds the field is dropped
  without a signal. The counterexample is a request of \<open>2^21\<close>: no assertion fails, and
  \<^verbatim>\<open>capacity()\<close> is 16.
\<close>

theorem bit_field_limits:
  "(1024 \<le> n \<longrightarrow> str_sized n m0 = Inl AssertionFailed) \<and>
   (valid_state (s, m) \<and> capacity s < c \<and> 0 \<le> extra \<and> c + extra < 2 ^ 31 \<and>
    \<not> c < local_buffer_size s \<longrightarrow>
      (\<exists>s' m'. reserve_discard (s, m) c extra = Inr (s', m') \<and>
         capacity s' mod 2 ^ 21 = (c + extra) mod 2 ^ 21) \<and>
      (owns_buffer s \<or> length_str s < c + extra \<longrightarrow>
         (\<exists>s' m'. reserve (s, m) c extra = Inr (s', m') \<and>
            capacity s' mod 2 ^ 21 = (c + extra) mod 2 ^ 21)))"
proof (intro conjI impI)
  assume "1024 \<le> n"
  then show "str_sized n m0 = Inl AssertionFailed" by (rule str_sized_too_big)
next
  assume a: "valid_state (s, m) \<and> capacity s < c \<and> 0 \<le> extra \<and> c + extra < 2 ^ 31 \<and>
    \<not> c < local_buffer_size s"
  then have v: "valid_state (s, m)" and c: "capacity s < c" and e: "0 \<le> extra"
    and l: "\<not> c < local_buffer_size s" by auto
  from reserve_discard_grows [OF v c e] l obtain s1 m1 where
    "reserve_discard (s, m) c extra = Inr (s1, m1)" "m_capacity s1 = word_of_int (c + extra)"
    by auto
  then show "\<exists>s' m'. reserve_discard (s, m) c extra = Inr (s', m') \<and>
         capacity s' mod 2 ^ 21 = (c + extra) mod 2 ^ 21"
    using capacity_field_bits [of s1 "c + extra"] by blast
  assume "owns_buffer s \<or> length_str s < c + extra"
  then have own: "m_owns_buffer s \<or>
      m_length s < (if c < local_buffer_size s then local_buffer_size s else c + extra)"
    using l by (simp add: owns_buffer_def length_str_def)
  from reserve_grows [OF v c e own] l obtain s2 m2 where
    "reserve (s, m) c extra = Inr (s2, m2)" "m_capacity s2 = word_of_int (c + extra)"
    by auto
  then show "\<exists>s' m'. reserve (s, m) c extra = Inr (s', m') \<and>
         capacity s' mod 2 ^ 21 = (c + extra) mod 2 ^ 21"
    using capacity_field_bits [of s2 "c + extra"] by blast
qed

theorem reserve_no_assertion_counterexample:
  "(\<exists>s' m'. reserve_discard (str_default, process_memory) 2097152 16 = Inr (s', m') \<and>
      capacity s' = 16) \<and>
   (\<exists>s' m'. reserve (str_default, process_memory) 2097152 16 = Inr (s', m') \<and>
      capacity s' = 16)"
proof -
  have n: "capacity str_default < 2097152" by (simp add: capacity_def str_default_def)
  have l: "\<not> 2097152 < local_buffer_size str_default"
    by (simp add: local_buffer_size_def str_default_def)
  from reserve_discard_grows [OF valid_default n, of 16] l
  have 1: "\<exists>s' m'. reserve_discard (str_default, process_memory) 2097152 16 = Inr (s', m') \<and>
      capacity s' = 16"
    by (auto simp: capacity_def)
  have own: "m_owns_buffer str_default \<or>
      m_length str_default < (if 2097152 < local_buffer_size str_default
        then local_buffer_size str_default else 2097152 + 16)"
    by (simp add: local_buffer_size_def str_default_def)
  from reserve_grows [OF valid_default n _ own] l
  have 2: "\<exists>s' m'. reserve (str_default, process_memory) 2097152 16 = Inr (s', m') \<and>
      capacity s' = 16"
    by (auto simp: capacity_def str_default_def)
  from 1 2 show ?thesis by simp
qed

theorem bit_field_limits_witness:
  "(1024 :: int) \<le> 2000 \<and>
   str_sized 2000 (with_local_buf 2000 process_memory) = Inl AssertionFailed \<and>
   valid_state (str_default, process_memory) \<and> capacity str_default < 3000000 \<and>
   (0 :: int) \<le> 16 \<and> (3000000 :: int) + 16 < 2 ^ 31 \<and>
   \<not> 3000000 < local_buffer_size str_default \<and>
   (\<exists>s' m'. reserve_discard (str_default, process_memory) 3000000 16 = Inr (s', m') \<and>
      capacity s' mod 2 ^ 21 = 902864) \<and>
   length_str str_default < 3000000 + 16 \<and>
   (\<exists>s' m'. reserve (str_default, process_memory) 3000000 16 = Inr (s', m') \<and>
      capacity s' mod 2 ^ 21 = 902864)"
proof -
  have n: "capacity str_default < 3000000" by (simp add: capacity_def str_default_def)
  have l: "\<not> 3000000 < local_buffer_size str_default"
    by (simp add: local_buffer_size_def str_default_def)
  have o: "length_str str_default < 3000000 + 16" by (simp add: length_str_def str_default_def)
  show ?thesis
    using bit_field_limits [of 2000 "with_local_buf 2000 process_memory" str_default
        process_memory 3000000 16] valid_default n l o
    by simp
qed

text \<open>
  C8, as the code has it. For every well-formed string and every source pointer at a
  non-empty C string in storage of the caller, \<^verbatim>\<open>set_ref\<close> releases the heap buffer the
  string owned, if any, and binds: \<^verbatim>\<open>c_str()\<close> is the given pointer, \<^verbatim>\<open>capacity() == 0\<close>,
  \<^verbatim>\<open>owns_buffer() == false\<close>, and \<^verbatim>\<open>length()\<close> is the number of characters before the
  terminator of the referenced data. For an empty source \<^verbatim>\<open>set_ref\<close> only calls
  \<^verbatim>\<open>clear_no_free\<close>; the counterexample is a heap-owned string, which then keeps its
  buffer, its capacity and its ownership.
\<close>

theorem set_ref_binds:
  assumes v: "valid_state (s, m)" and src: "c_string m src = Inr tx" and ne: "tx \<noteq> []"
    and ext: "fst src = Ext k" and len: "length tx < 2 ^ 31"
  shows "\<exists>s' m'. set_ref (s, m) src = Inr (s', m') \<and>
           c_str s' = src \<and> capacity s' = 0 \<and> \<not> owns_buffer s' \<and>
           length_str s' = int (length tx) \<and>
           blocks m' = (if owns_buffer s \<and> \<not> using_local_buffer s
                        then (blocks m)(fst (m_data s) := None) else blocks m)"
proof -
  have nul: "NUL \<notin> set tx" using c_stringD [OF src] by blast
  obtain c where c: "load m src = Inr c" "c \<noteq> NUL"
    using nul load_c_string [OF src] ne by (cases tx) auto
  from release_owned_blocks [OF v] obtain m1 where
    m1: "release_owned s m = Inr m1"
        "blocks m1 = (if m_owns_buffer s \<and> \<not> using_local_buffer s
                        then (blocks m)(fst (m_data s) := None) else blocks m)" by blast
  have "fst (m_data s) \<noteq> fst src" if "m_owns_buffer s"
    using valid_owned [OF v that] ext by auto
  then have "blocks m1 (fst src) = blocks m (fst src)" using m1(2) by auto
  then have "c_string m1 src = Inr tx" using c_string_cong [of m1 src m] src by simp
  then have "cstr_length m1 src = Inr (int (length tx))"
    using len by (simp add: cstr_length_def narrow_int_def)
  then have "set_ref (s, m) src =
      Inr (s\<lparr>m_data := src, m_length := int (length tx), m_capacity := 0,
             m_owns_buffer := False\<rparr>, m1)"
    using c m1(1) by (cases src) (simp add: set_ref_def set_ref_at_def ptr_add_def)
  then show ?thesis using m1(2)
    by (simp add: c_str_def capacity_def owns_buffer_def length_str_def)
qed

theorem set_ref_binds_witness:
  "\<exists>s0 m0.
     set_cstr (str_default, with_c_string 1 ''hey!'' (with_c_string 0 ''abc'' process_memory)) (Ext 0, 0)
       = Inr (s0, m0) \<and>
     valid_state (s0, m0) \<and> c_string m0 (Ext 1, 0) = Inr ''hey!'' \<and> ''hey!'' \<noteq> [] \<and>
     fst (Ext 1, 0 :: int) = Ext 1 \<and> length ''hey!'' < (2 :: nat) ^ 31 \<and>
     owns_buffer s0 \<and> \<not> using_local_buffer s0 \<and> c_str s0 = (Heap 0, 0) \<and>
     blocks m0 (Heap 0) \<noteq> None \<and>
     (\<exists>s' m'. set_ref (s0, m0) (Ext 1, 0) = Inr (s', m') \<and>
        c_str s' = (Ext 1, 0) \<and> capacity s' = 0 \<and> \<not> owns_buffer s' \<and> length_str s' = 4 \<and>
        blocks m' (Heap 0) = None)"
proof -
  obtain s0 m0 where
    s0: "set_cstr (str_default, with_c_string 1 ''hey!'' (with_c_string 0 ''abc'' process_memory))
           (Ext 0, 0) = Inr (s0, m0)"
      "valid_state (s0, m0)" "c_string m0 (Ext 1, 0) = Inr ''hey!''"
      "owns_buffer s0" "\<not> using_local_buffer s0" "c_str s0 = (Heap 0, 0)"
      "blocks m0 (Heap 0) \<noteq> None"
    by (simp add: model_defs valid_state_def)
  have "\<exists>s' m'. set_ref (s0, m0) (Ext 1, 0) = Inr (s', m') \<and>
        c_str s' = (Ext 1, 0) \<and> capacity s' = 0 \<and> \<not> owns_buffer s' \<and> length_str s' = 4 \<and>
        blocks m' (Heap 0) = None"
    using set_ref_binds [OF s0(2,3), of 1] s0(4,5,6) by (auto simp: c_str_def)
  with s0 show ?thesis by auto
qed

theorem set_ref_empty_counterexample:
  "\<exists>s0 m0 s' m'.
     set_cstr (str_default, with_c_string 1 [] (with_c_string 0 ''abc'' process_memory)) (Ext 0, 0)
       = Inr (s0, m0) \<and>
     set_ref (s0, m0) (Ext 1, 0) = Inr (s', m') \<and>
     c_str s' = (Heap 0, 0) \<and> owns_buffer s' \<and> capacity s' = 20 \<and> blocks m' (Heap 0) \<noteq> None"
  by (simp add: model_defs)







text \<open>
  C2. After a mutating operation returns, the byte of the active buffer at index
  \<^verbatim>\<open>length()\<close> should be the terminator, and \<^verbatim>\<open>length()\<close> non-negative. The formatted
  writes break this. \<^verbatim>\<open>appendfv\<close> (and so \<^verbatim>\<open>appendf\<close>) writes the new text behind the old
  one and never updates \<^verbatim>\<open>m_length\<close>: on the string \<^verbatim>\<open>"xy"\<close>, appending \<^verbatim>\<open>"abc"\<close> returns
  \<^verbatim>\<open>true\<close> with the buffer holding \<^verbatim>\<open>"xyabc"\<close>, \<^verbatim>\<open>length() == 2\<close>, and the byte at
  index 2 is \<^verbatim>\<open>'a'\<close>. \<^verbatim>\<open>setfv_no_grow\<close> on a string of capacity 0 takes
  \<^verbatim>\<open>m_capacity - 1 = -1\<close> for the new length and stores the terminator in front of the
  buffer: on a reference to the tail of \<^verbatim>\<open>"hey!"\<close> it returns \<^verbatim>\<open>true\<close> with
  \<^verbatim>\<open>length() == -1\<close>.
\<close>

theorem formatted_writes_break_terminator:
  "(\<exists>s0 m0 s' m'.
      set_cstr (str_default, with_c_string 0 ''xy'' process_memory) (Ext 0, 0) = Inr (s0, m0) \<and>
      appendfv (s0, m0) (Expands ''abc'') = Inr (True, s', m') \<and>
      c_string m' (c_str s') = Inr ''xyabc'' \<and> length_str s' = 2 \<and>
      load m' (ptr_add (c_str s') (length_str s')) = Inr CHR ''a'') \<and>
   (\<exists>s0 m0 s' m'.
      set_ref_at (str_default, with_c_string 0 ''hey!'' process_memory) (Ext 0, 0) 1
        = Inr (s0, m0) \<and>
      setfv_no_grow (s0, m0) (Expands ''abc'') = Inr (True, s', m') \<and>
      length_str s' = - 1 \<and> written m' = [(Ext 0, 0)])"
  by (simp add: model_defs format_defs)

end
